theory Spec2Isabelle
  imports Complex_Main
begin

section \<open>Tensors\<close>

text \<open>
  The model of \<^verbatim>\<open>src/models/transformer/base.py\<close>. A tensor is a nested list in
  row-major order, its elements real numbers (exact arithmetic, not IEEE floats): the
  outermost list is dimension 0. A tensor whose dimension is 0 next to later dimensions
  has no nested-list form, so such shapes are outside the model. The operations of the
  tensor engine are total functions on lists that agree with the engine on arguments of
  matching shapes; its shape errors are written out as results where the positional
  encoding adds its table, and are otherwise outside the model: the theorems there fix the
  shapes of the arguments.
\<close>

type_synonym tensor2 = "real list list"
type_synonym tensor3 = "real list list list"
type_synonym tensor4 = "real list list list list"

datatype error = ZeroDivisionError | AssertionError | ValueError | IndexError | RuntimeError

definition shape2 :: "nat \<Rightarrow> nat \<Rightarrow> 'a list list \<Rightarrow> bool" where
  "shape2 n m x = (length x = n \<and> list_all (\<lambda>r. length r = m) x)"

definition shape3 :: "nat \<Rightarrow> nat \<Rightarrow> nat \<Rightarrow> 'a list list list \<Rightarrow> bool" where
  "shape3 a n m x = (length x = a \<and> list_all (shape2 n m) x)"

definition shape4 :: "nat \<Rightarrow> nat \<Rightarrow> nat \<Rightarrow> nat \<Rightarrow> 'a list list list list \<Rightarrow> bool" where
  "shape4 a b n m x = (length x = a \<and> list_all (shape3 b n m) x)"

text \<open>Running a fallible function over a list stops at the first error.\<close>

fun map_err :: "('a \<Rightarrow> error + 'b) \<Rightarrow> 'a list \<Rightarrow> error + 'b list" where
  "map_err f [] = Inr []"
| "map_err f (x # xs) =
     (case f x of Inl e \<Rightarrow> Inl e
      | Inr y \<Rightarrow> (case map_err f xs of Inl e \<Rightarrow> Inl e | Inr ys \<Rightarrow> Inr (y # ys)))"

text \<open>
  Broadcasting in an in-place operation \<^verbatim>\<open>x += y\<close>: every dimension of \<^verbatim>\<open>y\<close> has the size
  of the same dimension of \<^verbatim>\<open>x\<close>, or size 1 and is repeated; anything else is a
  RuntimeError of the tensor engine.
\<close>

definition expand :: "nat \<Rightarrow> 'a list \<Rightarrow> error + 'a list" where
  "expand n ys =
     (if length ys = n then Inr ys
      else if length ys = 1 then Inr (replicate n (hd ys))
      else Inl RuntimeError)"

definition iadd1 :: "real list \<Rightarrow> real list \<Rightarrow> error + real list" where
  "iadd1 x y = (case expand (length x) y of Inl e \<Rightarrow> Inl e | Inr y' \<Rightarrow> Inr (map2 (+) x y'))"

definition iadd2 :: "tensor2 \<Rightarrow> tensor2 \<Rightarrow> error + tensor2" where
  "iadd2 x y =
     (case expand (length x) y of Inl e \<Rightarrow> Inl e
      | Inr y' \<Rightarrow> map_err (\<lambda>(a, b). iadd1 a b) (zip x y'))"

definition iadd3 :: "tensor3 \<Rightarrow> tensor3 \<Rightarrow> error + tensor3" where
  "iadd3 x y =
     (case expand (length x) y of Inl e \<Rightarrow> Inl e
      | Inr y' \<Rightarrow> map_err (\<lambda>(a, b). iadd2 a b) (zip x y'))"

section \<open>Dropout\<close>

text \<open>
  \<^verbatim>\<open>nn.Dropout(p)\<close> rejects a probability outside [0, 1] when it is constructed. Its forward
  pass returns the input in evaluation mode, for \<^verbatim>\<open>p = 0\<close> and for an empty input, zeroes
  it for \<^verbatim>\<open>p = 1\<close>, and otherwise draws one Bernoulli(1 - p) sample per element from the
  random generator and multiplies the element by sample / (1 - p). The generator is the
  stream of its samples (\<open>True\<close> keeps the element); the state threaded through a forward
  pass is the number of samples drawn so far.
\<close>

type_synonym generator = "nat \<Rightarrow> bool"

record Dropout =
  drop_p :: real
  drop_training :: bool

definition Dropout_init :: "real \<Rightarrow> error + Dropout" where
  "Dropout_init p0 =
     (if p0 < 0 \<or> 1 < p0 then Inl ValueError
      else Inr \<lparr>drop_p = p0, drop_training = True\<rparr>)"

definition noise :: "generator \<Rightarrow> real \<Rightarrow> nat \<Rightarrow> real" where
  "noise g p0 k = (if g k then 1 / (1 - p0) else 0)"

fun map_state :: "('a \<Rightarrow> 's \<Rightarrow> 'b \<times> 's) \<Rightarrow> 'a list \<Rightarrow> 's \<Rightarrow> 'b list \<times> 's" where
  "map_state f [] s = ([], s)"
| "map_state f (x # xs) s =
     (let (y, s') = f x s; (ys, s'') = map_state f xs s' in (y # ys, s''))"

definition bernoulli_mul :: "generator \<Rightarrow> real \<Rightarrow> real \<Rightarrow> nat \<Rightarrow> real \<times> nat" where
  "bernoulli_mul g p0 a n = (a * noise g p0 n, Suc n)"

definition numel3 :: "'a list list list \<Rightarrow> nat" where
  "numel3 x = length (concat (concat x))"

definition Dropout_forward :: "Dropout \<Rightarrow> generator \<Rightarrow> tensor3 \<Rightarrow> nat \<Rightarrow> tensor3 \<times> nat" where
  "Dropout_forward d g x n =
     (if drop_p d = 0 \<or> \<not> drop_training d \<or> numel3 x = 0 then (x, n)
      else if drop_p d = 1 then (map (map (map (\<lambda>a. a * 0))) x, n)
      else map_state (map_state (map_state (bernoulli_mul g (drop_p d)))) x n)"

section \<open>PositionalEncoding\<close>

text \<open>
  The constructor builds the table \<^verbatim>\<open>pe\<close> of shape [max_len, 1, d_model]: the even columns
  are the sines and the odd columns the cosines of \<^verbatim>\<open>position * div_term\<close>. The division by
  \<^verbatim>\<open>d_model\<close> raises for 0, and the assignment of the cosines raises when \<^verbatim>\<open>div_term\<close> has
  neither as many entries as there are odd columns nor exactly one.
\<close>

record PositionalEncoding =
  pos_dropout :: Dropout
  pe :: tensor3

definition arange2 :: "nat \<Rightarrow> nat list" where
  "arange2 n = map (\<lambda>i. 2 * i) [0..<(n + 1) div 2]"

definition div_term :: "nat \<Rightarrow> real list" where
  "div_term d_model = map (\<lambda>k. exp (real k * (- ln 10000 / real d_model))) (arange2 d_model)"

definition pe_row :: "nat \<Rightarrow> nat \<Rightarrow> real list" where
  "pe_row d_model pos =
     map (\<lambda>c. if even c then sin (real pos * (div_term d_model ! (c div 2)))
               else cos (real pos * (div_term d_model ! (c div 2))))
       [0..<d_model]"

definition PositionalEncoding_init :: "nat \<Rightarrow> real \<Rightarrow> nat \<Rightarrow> error + PositionalEncoding" where
  "PositionalEncoding_init d_model dropout max_len =
     (case Dropout_init dropout of Inl e \<Rightarrow> Inl e
      | Inr d \<Rightarrow>
          if d_model = 0 then Inl ZeroDivisionError
          else if length (div_term d_model) \<noteq> d_model div 2 \<and> length (div_term d_model) \<noteq> 1
          then Inl RuntimeError
          else Inr \<lparr>pos_dropout = d, pe = map (\<lambda>pos. [pe_row d_model pos]) [0..<max_len]\<rparr>)"

text \<open>
  \<^verbatim>\<open>forward\<close>: \<^verbatim>\<open>x += self.pe[:x.size(0), :]\<close>, then dropout. The slice takes the first
  \<^verbatim>\<open>x.size(0)\<close> entries of the table (all of them when there are fewer: a slice never
  raises), and the in-place addition broadcasts it against \<^verbatim>\<open>x\<close>.
\<close>

definition PositionalEncoding_forward ::
  "PositionalEncoding \<Rightarrow> generator \<Rightarrow> tensor3 \<Rightarrow> nat \<Rightarrow> error + tensor3 \<times> nat" where
  "PositionalEncoding_forward m g x n =
     (case iadd3 x (take (length x) (pe m)) of Inl e \<Rightarrow> Inl e
      | Inr x' \<Rightarrow> Inr (Dropout_forward (pos_dropout m) g x' n))"

section \<open>Linear layers and layer normalisation\<close>

text \<open>
  \<^verbatim>\<open>nn.Linear\<close> holds a weight of shape [out, in] and an optional bias and maps the last
  dimension: \<^verbatim>\<open>y = x W\<^sup>T + b\<close>. The values a constructor draws at random for a weight
  are an argument of the model's constructors.
\<close>

record Linear =
  weight :: tensor2
  bias :: "real list option"

definition dot :: "real list \<Rightarrow> real list \<Rightarrow> real" where
  "dot u v = sum_list (map2 (*) u v)"

definition linear_vec :: "Linear \<Rightarrow> real list \<Rightarrow> real list" where
  "linear_vec l v =
     (case bias l of None \<Rightarrow> map (\<lambda>w. dot v w) (weight l)
      | Some b \<Rightarrow> map2 (\<lambda>w c. dot v w + c) (weight l) b)"

definition Linear_forward :: "Linear \<Rightarrow> tensor3 \<Rightarrow> tensor3" where
  "Linear_forward l x = map (map (linear_vec l)) x"

text \<open>
  \<^verbatim>\<open>nn.LayerNorm(d)(x)\<close> with the module made on the spot: weight 1, bias 0,
  \<^verbatim>\<open>eps = 1e-5\<close>, the biased variance over the last dimension (of size \<^verbatim>\<open>d\<close>).
\<close>

definition mean :: "real list \<Rightarrow> real" where
  "mean v = sum_list v / real (length v)"

definition var :: "real list \<Rightarrow> real" where
  "var v = sum_list (map (\<lambda>a. (a - mean v)\<^sup>2) v) / real (length v)"

definition layer_norm_vec :: "real list \<Rightarrow> real list" where
  "layer_norm_vec v = map (\<lambda>a. (a - mean v) / sqrt (var v + 1 / 100000) * 1 + 0) v"

definition LayerNorm :: "nat \<Rightarrow> tensor3 \<Rightarrow> tensor3" where
  "LayerNorm d x = map (map layer_norm_vec) x"

definition tadd3 :: "tensor3 \<Rightarrow> tensor3 \<Rightarrow> tensor3" where
  "tadd3 x y = map2 (map2 (map2 (+))) x y"

section \<open>ScaleDotProductAttention\<close>

definition transpose2 :: "'a list list \<Rightarrow> 'a list list" where
  "transpose2 x = map (\<lambda>j. map (\<lambda>r. r ! j) x) [0..<(if x = [] then 0 else length (hd x))]"

definition matmul2 :: "tensor2 \<Rightarrow> tensor2 \<Rightarrow> tensor2" where
  "matmul2 A B = map (\<lambda>r. map (dot r) (transpose2 B)) A"

definition matmul :: "tensor4 \<Rightarrow> tensor4 \<Rightarrow> tensor4" where
  "matmul A B = map2 (map2 matmul2) A B"

definition transpose_last :: "tensor4 \<Rightarrow> tensor4" where
  "transpose_last x = map (map transpose2) x"

definition div_scalar :: "tensor4 \<Rightarrow> real \<Rightarrow> tensor4" where
  "div_scalar x c = map (map (map (map (\<lambda>a. a / c)))) x"

definition masked_fill :: "tensor4 \<Rightarrow> bool list list list list \<Rightarrow> real \<Rightarrow> tensor4" where
  "masked_fill x msk v = map2 (map2 (map2 (map2 (\<lambda>a m. if m then v else a)))) x msk"

text \<open>
  \<^verbatim>\<open>torch.softmax\<close> over the last dimension, in exact arithmetic. The exponential of a real
  number is never zero, while single precision returns zero for a weight below half of its
  least positive number; what is proved about a masked weight is therefore a bound, not
  its sign.
\<close>

definition softmax_vec :: "real list \<Rightarrow> real list" where
  "softmax_vec v = map (\<lambda>a. exp a / sum_list (map exp v)) v"

definition softmax :: "tensor4 \<Rightarrow> tensor4" where
  "softmax x = map (map (map softmax_vec)) x"

text \<open>The local \<^verbatim>\<open>attn\<close> of \<^verbatim>\<open>ScaleDotProductAttention.forward\<close>: the attention weights.\<close>

definition ScaleDotProductAttention_attn ::
  "tensor4 \<Rightarrow> tensor4 \<Rightarrow> bool list list list list \<Rightarrow> nat \<Rightarrow> tensor4" where
  "ScaleDotProductAttention_attn Q K attn_mask d_k =
     (let scores = div_scalar (matmul Q (transpose_last K)) (sqrt (real d_k));
          scores = masked_fill scores attn_mask (- 1000000000)
      in softmax scores)"

definition ScaleDotProductAttention_forward ::
  "tensor4 \<Rightarrow> tensor4 \<Rightarrow> tensor4 \<Rightarrow> bool list list list list \<Rightarrow> nat \<Rightarrow> tensor4" where
  "ScaleDotProductAttention_forward Q K V attn_mask d_k =
     (let attn = ScaleDotProductAttention_attn Q K attn_mask d_k;
          context = matmul attn V
      in context)"

section \<open>MultiheadAttention\<close>

record MultiheadAttention =
  mha_embed_dim :: nat
  mha_num_heads :: nat
  mha_dropout :: real
  mha_head_dim :: nat
  q_w :: Linear
  k_w :: Linear
  v_w :: Linear
  fc :: Linear

text \<open>
  The constructor: \<^verbatim>\<open>embed_dim // num_heads\<close> raises for 0 heads, the assertion raises
  when the quotient times the heads is not \<^verbatim>\<open>embed_dim\<close>, and \<^verbatim>\<open>xavier_uniform_\<close> divides by
  fan_in + fan_out, which is 0 for an empty weight. The four weights are the values drawn
  for the projections.
\<close>

definition MultiheadAttention_init ::
  "nat \<Rightarrow> nat \<Rightarrow> real \<Rightarrow> tensor2 \<times> tensor2 \<times> tensor2 \<times> tensor2 \<Rightarrow> error + MultiheadAttention" where
  "MultiheadAttention_init embed_dim num_heads dropout ws =
     (case ws of (wq, wk, wv, wfc) \<Rightarrow>
        if num_heads = 0 then Inl ZeroDivisionError
        else if (embed_dim div num_heads) * num_heads \<noteq> embed_dim then Inl AssertionError
        else if embed_dim + embed_dim = 0 then Inl ZeroDivisionError
        else Inr \<lparr>mha_embed_dim = embed_dim, mha_num_heads = num_heads, mha_dropout = dropout,
                  mha_head_dim = embed_dim div num_heads,
                  q_w = \<lparr>weight = wq, bias = None\<rparr>, k_w = \<lparr>weight = wk, bias = None\<rparr>,
                  v_w = \<lparr>weight = wv, bias = None\<rparr>, fc = \<lparr>weight = wfc, bias = None\<rparr>\<rparr>)"

text \<open>
  \<^verbatim>\<open>x.view(b_s, -1, num_heads, d_k)\<close> reads the contiguous data of each batch element in
  groups of \<^verbatim>\<open>num_heads\<close> pieces of \<^verbatim>\<open>d_k\<close> elements; \<^verbatim>\<open>transpose(1, 2)\<close> swaps dimensions
  1 and 2; \<^verbatim>\<open>reshape(b_s, -1, embed_dim)\<close> reads the elements of each batch element in
  row-major order in rows of \<^verbatim>\<open>embed_dim\<close>.
\<close>

definition chunk :: "nat \<Rightarrow> 'a list \<Rightarrow> 'a list list" where
  "chunk n xs = map (\<lambda>i. take n (drop (i * n) xs)) [0..<length xs div n]"

definition view4 :: "nat \<Rightarrow> nat \<Rightarrow> tensor3 \<Rightarrow> tensor4" where
  "view4 h d x = map (\<lambda>xb. map (chunk d) (chunk (h * d) (concat xb))) x"

definition transpose12 :: "'a list list list list \<Rightarrow> 'a list list list list" where
  "transpose12 x = map transpose2 x"

definition reshape3 :: "nat \<Rightarrow> tensor4 \<Rightarrow> tensor3" where
  "reshape3 e x = map (\<lambda>xb. chunk e (concat (concat xb))) x"

definition repeat_heads :: "nat \<Rightarrow> bool list list list \<Rightarrow> bool list list list list" where
  "repeat_heads h attn_mask = map (\<lambda>m. replicate h m) attn_mask"

definition MultiheadAttention_forward ::
  "MultiheadAttention \<Rightarrow> tensor3 \<Rightarrow> tensor3 \<Rightarrow> tensor3 \<Rightarrow> bool list list list \<Rightarrow> tensor3" where
  "MultiheadAttention_forward m query key value attn_mask =
     (let residual = query;
          d_k = mha_embed_dim m div mha_num_heads m;
          Q = transpose12 (view4 (mha_num_heads m) d_k (Linear_forward (q_w m) query));
          K = transpose12 (view4 (mha_num_heads m) d_k (Linear_forward (k_w m) key));
          V = transpose12 (view4 (mha_num_heads m) d_k (Linear_forward (v_w m) value));
          attn_mask = repeat_heads (mha_num_heads m) attn_mask;
          context = ScaleDotProductAttention_forward Q K V attn_mask d_k;
          context = reshape3 (mha_embed_dim m) (transpose12 context);
          outputs = Linear_forward (fc m) context;
          outputs = tadd3 outputs residual;
          outputs = LayerNorm (mha_embed_dim m) outputs
      in outputs)"

section \<open>FeedForWard\<close>

text \<open>
  \<^verbatim>\<open>self.fc\<close> is the sequence Linear, Dropout, ReLU, Linear, in this order; both linear
  layers have a bias.
\<close>

record FeedForWard =
  ff_d_model :: nat
  ff_linear1 :: Linear
  ff_dropout :: Dropout
  ff_linear2 :: Linear

definition FeedForWard_init ::
  "nat \<Rightarrow> nat \<Rightarrow> real \<Rightarrow> (tensor2 \<times> real list) \<times> (tensor2 \<times> real list) \<Rightarrow> error + FeedForWard" where
  "FeedForWard_init d_model feed_forward_dim dropout ws =
     (case ws of ((w1, b1), (w2, b2)) \<Rightarrow>
        (case Dropout_init dropout of Inl e \<Rightarrow> Inl e
         | Inr d \<Rightarrow> Inr \<lparr>ff_d_model = d_model, ff_linear1 = \<lparr>weight = w1, bias = Some b1\<rparr>,
                         ff_dropout = d, ff_linear2 = \<lparr>weight = w2, bias = Some b2\<rparr>\<rparr>))"

definition ReLU :: "tensor3 \<Rightarrow> tensor3" where
  "ReLU x = map (map (map (\<lambda>a. max 0 a))) x"

definition FeedForWard_forward :: "FeedForWard \<Rightarrow> generator \<Rightarrow> tensor3 \<Rightarrow> nat \<Rightarrow> tensor3 \<times> nat" where
  "FeedForWard_forward m g inputs n =
     (let residual = inputs;
          output = Linear_forward (ff_linear1 m) inputs;
          (output, n') = Dropout_forward (ff_dropout m) g output n;
          output = ReLU output;
          output = Linear_forward (ff_linear2 m) output;
          output = tadd3 output residual;
          output = LayerNorm (ff_d_model m) output
      in (output, n'))"

section \<open>Encoder and decoder layers\<close>

type_synonym mha_weights = "tensor2 \<times> tensor2 \<times> tensor2 \<times> tensor2"
type_synonym ff_weights = "(tensor2 \<times> real list) \<times> (tensor2 \<times> real list)"

record TransformerEncoderLayer =
  self_attn :: MultiheadAttention
  enc_feedforward :: FeedForWard

definition TransformerEncoderLayer_init ::
  "nat \<Rightarrow> nat \<Rightarrow> real \<Rightarrow> nat \<Rightarrow> mha_weights \<times> ff_weights \<Rightarrow> error + TransformerEncoderLayer" where
  "TransformerEncoderLayer_init d_model nhead dropout feedforward_dim ws =
     (case MultiheadAttention_init d_model nhead dropout (fst ws) of Inl e \<Rightarrow> Inl e
      | Inr a \<Rightarrow>
          (case FeedForWard_init d_model feedforward_dim dropout (snd ws) of Inl e \<Rightarrow> Inl e
           | Inr f \<Rightarrow> Inr \<lparr>self_attn = a, enc_feedforward = f\<rparr>))"

definition TransformerEncoderLayer_forward ::
  "TransformerEncoderLayer \<Rightarrow> generator \<Rightarrow> tensor3 \<Rightarrow> bool list list list \<Rightarrow> nat \<Rightarrow> tensor3 \<times> nat" where
  "TransformerEncoderLayer_forward l g inputs enc_attn_mask n =
     (let output = MultiheadAttention_forward (self_attn l) inputs inputs inputs enc_attn_mask
      in FeedForWard_forward (enc_feedforward l) g output n)"

record TransformerDecoderLayer =
  dec_self_attn :: MultiheadAttention
  dec_enc_attn :: MultiheadAttention
  feedforward :: FeedForWard

definition TransformerDecoderLayer_init ::
  "nat \<Rightarrow> nat \<Rightarrow> nat \<Rightarrow> real \<Rightarrow> mha_weights \<times> mha_weights \<times> ff_weights \<Rightarrow> error + TransformerDecoderLayer" where
  "TransformerDecoderLayer_init d_model num_heads feedforward_dim dropout ws =
     (case ws of (ws1, ws2, ws3) \<Rightarrow>
        (case MultiheadAttention_init d_model num_heads 0 ws1 of Inl e \<Rightarrow> Inl e
         | Inr a1 \<Rightarrow>
             (case MultiheadAttention_init d_model num_heads 0 ws2 of Inl e \<Rightarrow> Inl e
              | Inr a2 \<Rightarrow>
                  (case FeedForWard_init d_model feedforward_dim dropout ws3 of Inl e \<Rightarrow> Inl e
                   | Inr f \<Rightarrow> Inr \<lparr>dec_self_attn = a1, dec_enc_attn = a2, feedforward = f\<rparr>))))"

definition TransformerDecoderLayer_forward ::
  "TransformerDecoderLayer \<Rightarrow> generator \<Rightarrow> tensor3 \<Rightarrow> tensor3 \<Rightarrow> bool list list list \<Rightarrow>
     bool list list list \<Rightarrow> nat \<Rightarrow> tensor3 \<times> nat" where
  "TransformerDecoderLayer_forward l g dec_inputs enc_inputs dec_self_attn_mask dec_enc_attn_mask n =
     (let output = MultiheadAttention_forward (dec_self_attn l) dec_inputs dec_inputs dec_inputs
                     dec_self_attn_mask;
          output = MultiheadAttention_forward (dec_enc_attn l) enc_inputs output output
                     dec_enc_attn_mask
      in FeedForWard_forward (feedforward l) g output n)"

section \<open>The masks\<close>

text \<open>
  Modelled from the spec: \<^verbatim>\<open>get_attn_pad_mask\<close> and \<^verbatim>\<open>get_attn_subsequence_mask\<close> of the
  module \<^verbatim>\<open>utils\<close>, which is not among the sources. The spec gives them as boolean masks:
  the first of shape [batch, len_q, len_k], true where the key position holds the padding
  token (token 0 in the spec's scenario); the second of shape [batch, len, len], true
  where the key index exceeds the query index.
\<close>

definition get_attn_pad_mask :: "nat list list \<Rightarrow> nat list list \<Rightarrow> bool list list list" where
  "get_attn_pad_mask seq_q seq_k = map2 (\<lambda>q k. map (\<lambda>_. map (\<lambda>t. t = 0) k) q) seq_q seq_k"

definition get_attn_subsequence_mask :: "nat list list \<Rightarrow> bool list list list" where
  "get_attn_subsequence_mask seq =
     map (\<lambda>s. map (\<lambda>i. map (\<lambda>j. i < j) [0..<length s]) [0..<length s]) seq"

text \<open>
  The sum of two masks counts, for each entry, how many of the two are set;
  \<^verbatim>\<open>torch.gt(\<dots>, 0)\<close> compares each count with 0.
\<close>

definition mask_add :: "bool list list list \<Rightarrow> bool list list list \<Rightarrow> nat list list list" where
  "mask_add a b = map2 (map2 (map2 (\<lambda>u v. of_bool u + of_bool v))) a b"

definition torch_gt :: "nat list list list \<Rightarrow> nat \<Rightarrow> bool list list list" where
  "torch_gt a c = map (map (map (\<lambda>u. c < u))) a"

text \<open>The elementwise logical OR of two masks, as the spec words it.\<close>

definition logical_or :: "bool list list list \<Rightarrow> bool list list list \<Rightarrow> bool list list list" where
  "logical_or a b = map2 (map2 (map2 (\<or>))) a b"

section \<open>TransformerDecoder\<close>

record TransformerDecoder =
  tgt_emb :: tensor2
  pos_emb :: PositionalEncoding
  layers :: "TransformerDecoderLayer list"

text \<open>\<^verbatim>\<open>nn.Embedding\<close> looks each token up in its table and raises for a token outside it.\<close>

definition Embedding_forward :: "tensor2 \<Rightarrow> nat list list \<Rightarrow> error + tensor3" where
  "Embedding_forward table ids =
     map_err (map_err (\<lambda>t. if t < length table then Inr (table ! t) else Inl IndexError)) ids"

text \<open>
  The self-attention mask of the decoder, \<^verbatim>\<open>dec_self_attn_mask\<close> of
  \<^verbatim>\<open>TransformerDecoder.forward\<close>.
\<close>

definition dec_self_attn_mask_of :: "nat list list \<Rightarrow> bool list list list" where
  "dec_self_attn_mask_of dec_inputs =
     (let dec_self_attn_pad_mask = get_attn_pad_mask dec_inputs dec_inputs;
          dec_self_attn_subsequence_mask = get_attn_subsequence_mask dec_inputs
      in torch_gt (mask_add dec_self_attn_pad_mask dec_self_attn_subsequence_mask) 0)"

text \<open>The loop over \<^verbatim>\<open>self.layers\<close>: every layer gets the output of the one before.\<close>

fun decoder_loop ::
  "TransformerDecoderLayer list \<Rightarrow> generator \<Rightarrow> tensor3 \<Rightarrow> tensor3 \<Rightarrow> bool list list list \<Rightarrow>
     bool list list list \<Rightarrow> nat \<Rightarrow> tensor3 \<times> nat" where
  "decoder_loop [] g dec_outputs enc_outputs dec_self_attn_mask dec_enc_attn_mask n =
     (dec_outputs, n)"
| "decoder_loop (layer # ls) g dec_outputs enc_outputs dec_self_attn_mask dec_enc_attn_mask n =
     (let (dec_outputs, n') =
            TransformerDecoderLayer_forward layer g dec_outputs enc_outputs dec_self_attn_mask
              dec_enc_attn_mask n
      in decoder_loop ls g dec_outputs enc_outputs dec_self_attn_mask dec_enc_attn_mask n')"

definition TransformerDecoder_forward ::
  "TransformerDecoder \<Rightarrow> generator \<Rightarrow> nat list list \<Rightarrow> nat list list \<Rightarrow> tensor3 \<Rightarrow> nat \<Rightarrow>
     error + tensor3 \<times> nat" where
  "TransformerDecoder_forward m g enc_inputs dec_inputs enc_outputs n =
     (case Embedding_forward (tgt_emb m) dec_inputs of Inl e \<Rightarrow> Inl e
      | Inr dec_outputs \<Rightarrow>
          (case PositionalEncoding_forward (pos_emb m) g dec_outputs n of Inl e \<Rightarrow> Inl e
           | Inr (dec_outputs, n') \<Rightarrow>
               (let dec_self_attn_mask = dec_self_attn_mask_of dec_inputs;
                    dec_enc_attn_mask = get_attn_pad_mask dec_inputs enc_inputs
                in Inr (decoder_loop (layers m) g dec_outputs enc_outputs dec_self_attn_mask
                          dec_enc_attn_mask n'))))"

section \<open>The formulas of the specification\<close>

text \<open>
  The positional encoding as the specification words it: \<^verbatim>\<open>x + pe[:seq_len]\<close>, row \<open>s\<close> of
  the table added to position \<open>s\<close> of every batch element, then dropout.
\<close>

definition PositionalEncoding_forward_spec ::
  "PositionalEncoding \<Rightarrow> generator \<Rightarrow> tensor3 \<Rightarrow> nat \<Rightarrow> tensor3 \<times> nat" where
  "PositionalEncoding_forward_spec m g x n =
     Dropout_forward (pos_dropout m) g
       (map (\<lambda>xb. map2 (\<lambda>row t. map2 (+) row (hd t)) xb (pe m)) x) n"

text \<open>
  The feed-forward block as the specification words it:
  \<^verbatim>\<open>LayerNorm(Linear2(Dropout(ReLU(Linear1(input)))) + input)\<close>.
\<close>

definition FeedForWard_forward_spec ::
  "FeedForWard \<Rightarrow> generator \<Rightarrow> tensor3 \<Rightarrow> nat \<Rightarrow> tensor3 \<times> nat" where
  "FeedForWard_forward_spec m g inputs n =
     (let (hidden, n') =
            Dropout_forward (ff_dropout m) g (ReLU (Linear_forward (ff_linear1 m) inputs)) n
      in (LayerNorm (ff_d_model m) (tadd3 (Linear_forward (ff_linear2 m) hidden) inputs), n'))"

text \<open>
  Scaled dot-product attention entry by entry: the score of query \<open>i\<close> and key \<open>j\<close>, masked;
  the attention weight, its softmax over the \<open>n\<close> keys.
\<close>

definition scores_at ::
  "tensor4 \<Rightarrow> tensor4 \<Rightarrow> bool list list list list \<Rightarrow> nat \<Rightarrow> nat \<Rightarrow> nat \<Rightarrow> nat \<Rightarrow> nat \<Rightarrow> real" where
  "scores_at Q K msk d_k b h i j =
     (if msk ! b ! h ! i ! j then - 1000000000
      else (\<Sum>c<d_k. Q ! b ! h ! i ! c * K ! b ! h ! j ! c) / sqrt (real d_k))"

definition attn_at ::
  "tensor4 \<Rightarrow> tensor4 \<Rightarrow> bool list list list list \<Rightarrow> nat \<Rightarrow> nat \<Rightarrow> nat \<Rightarrow> nat \<Rightarrow> nat \<Rightarrow> nat \<Rightarrow> real" where
  "attn_at Q K msk d_k n b h i j =
     exp (scores_at Q K msk d_k b h i j) / (\<Sum>k<n. exp (scores_at Q K msk d_k b h i k))"

text \<open>
  The attention weights inside \<^verbatim>\<open>MultiheadAttention.forward\<close>: the \<^verbatim>\<open>attn\<close> of the
  \<^verbatim>\<open>ScaleDotProductAttention\<close> it runs on the projected and split query and key.
\<close>

definition MultiheadAttention_attn ::
  "MultiheadAttention \<Rightarrow> tensor3 \<Rightarrow> tensor3 \<Rightarrow> bool list list list \<Rightarrow> tensor4" where
  "MultiheadAttention_attn m query key attn_mask =
     (let d_k = mha_embed_dim m div mha_num_heads m;
          Q = transpose12 (view4 (mha_num_heads m) d_k (Linear_forward (q_w m) query));
          K = transpose12 (view4 (mha_num_heads m) d_k (Linear_forward (k_w m) key));
          attn_mask = repeat_heads (mha_num_heads m) attn_mask
      in ScaleDotProductAttention_attn Q K attn_mask d_k)"

text \<open>
  An encoder layer of width 1 with one head, as its constructor builds it for the dropout
  probability 1/2 from unit weights, and a positional encoding of width 2 with a table of
  two positions and no dropout.
\<close>

definition unit_mha_weights :: mha_weights where
  "unit_mha_weights = ([[1]], [[1]], [[1]], [[1]])"

definition unit_ff_weights :: ff_weights where
  "unit_ff_weights = (([[1]], [0]), ([[1]], [0]))"

definition enc_layer_half :: TransformerEncoderLayer where
  "enc_layer_half =
     \<lparr>self_attn =
        \<lparr>mha_embed_dim = 1, mha_num_heads = 1, mha_dropout = 1 / 2, mha_head_dim = 1,
         q_w = \<lparr>weight = [[1]], bias = None\<rparr>, k_w = \<lparr>weight = [[1]], bias = None\<rparr>,
         v_w = \<lparr>weight = [[1]], bias = None\<rparr>, fc = \<lparr>weight = [[1]], bias = None\<rparr>\<rparr>,
      enc_feedforward =
        \<lparr>ff_d_model = 1, ff_linear1 = \<lparr>weight = [[1]], bias = Some [0]\<rparr>,
         ff_dropout = \<lparr>drop_p = 1 / 2, drop_training = True\<rparr>,
         ff_linear2 = \<lparr>weight = [[1]], bias = Some [0]\<rparr>\<rparr>\<rparr>"

definition pos_enc_2 :: PositionalEncoding where
  "pos_enc_2 =
     \<lparr>pos_dropout = \<lparr>drop_p = 0, drop_training = True\<rparr>, pe = [[[0, 1]], [[sin 1, cos 1]]]\<rparr>"

section \<open>Shapes, transposition and products\<close>

lemma upt_0_2: "[0..<2] = [0, Suc 0]"
  by code_simp

lemma shape2_length: "shape2 n m x \<Longrightarrow> length x = n"
  by (simp add: shape2_def)

lemma shape2_nth: "shape2 n m x \<Longrightarrow> i < n \<Longrightarrow> length (x ! i) = m"
  by (simp add: shape2_def list_all_length)

lemma shape3_length: "shape3 a n m x \<Longrightarrow> length x = a"
  by (simp add: shape3_def)

lemma shape3_nth: "shape3 a n m x \<Longrightarrow> i < a \<Longrightarrow> shape2 n m (x ! i)"
  by (simp add: shape3_def list_all_length)

lemma shape4_length: "shape4 a b n m x \<Longrightarrow> length x = a"
  by (simp add: shape4_def)

lemma shape4_nth: "shape4 a b n m x \<Longrightarrow> i < a \<Longrightarrow> shape3 b n m (x ! i)"
  by (simp add: shape4_def list_all_length)

lemma shape4_nth2: "shape4 a b n m x \<Longrightarrow> i < a \<Longrightarrow> j < b \<Longrightarrow> shape2 n m (x ! i ! j)"
  by (blast dest: shape4_nth shape3_nth)

lemma shape2_I: "length x = n \<Longrightarrow> (\<And>i. i < n \<Longrightarrow> length (x ! i) = m) \<Longrightarrow> shape2 n m x"
  by (simp add: shape2_def list_all_length)

lemma shape3_I: "length x = a \<Longrightarrow> (\<And>i. i < a \<Longrightarrow> shape2 n m (x ! i)) \<Longrightarrow> shape3 a n m x"
  by (simp add: shape3_def list_all_length)

lemma shape4_I: "length x = a \<Longrightarrow> (\<And>i. i < a \<Longrightarrow> shape3 b n m (x ! i)) \<Longrightarrow> shape4 a b n m x"
  by (simp add: shape4_def list_all_length)

lemma transpose2_rect:
  assumes "shape2 n m x" "0 < n"
  shows "transpose2 x = map (\<lambda>j. map (\<lambda>r. r ! j) x) [0..<m]"
proof -
  from assms have "x \<noteq> []" by (auto simp: shape2_def)
  moreover from assms have "length (hd x) = m"
    using shape2_nth[OF assms(1), of 0] \<open>x \<noteq> []\<close> by (simp add: hd_conv_nth)
  ultimately show ?thesis by (simp add: transpose2_def)
qed

lemma transpose2_shape:
  assumes "shape2 n m x" "0 < n"
  shows "shape2 m n (transpose2 x)"
  unfolding transpose2_rect[OF assms] using assms(1)
  by (simp add: shape2_def list_all_length)

lemma transpose2_nth:
  assumes "shape2 n m x" "0 < n" "j < m"
  shows "transpose2 x ! j = map (\<lambda>r. r ! j) x"
  using assms by (simp add: transpose2_rect)

lemma transpose2_twice:
  assumes "shape2 n m x" "0 < n" "0 < m"
  shows "transpose2 (transpose2 x) = x"
proof -
  have s: "shape2 m n (transpose2 x)" by (rule transpose2_shape[OF assms(1,2)])
  have "transpose2 (transpose2 x) = map (\<lambda>i. map (\<lambda>r. r ! i) (transpose2 x)) [0..<n]"
    by (rule transpose2_rect[OF s assms(3)])
  also have "\<dots> = map (\<lambda>i. x ! i) [0..<n]"
  proof (rule map_cong[OF refl])
    fix i assume "i \<in> set [0..<n]"
    then have i: "i < n" by simp
    have "map (\<lambda>r. r ! i) (transpose2 x) = map (\<lambda>j. x ! i ! j) [0..<m]"
      using i assms by (simp add: transpose2_rect shape2_length)
    also have "\<dots> = x ! i"
      using shape2_nth[OF assms(1) i] by (metis map_nth)
    finally show "map (\<lambda>r. r ! i) (transpose2 x) = x ! i" .
  qed
  also have "\<dots> = x"
    using shape2_length[OF assms(1)] by (metis map_nth)
  finally show ?thesis .
qed

lemma dot_sum: "length u = n \<Longrightarrow> length v = n \<Longrightarrow> dot u v = (\<Sum>c<n. u ! c * v ! c)"
proof -
  assume a: "length u = n" "length v = n"
  have "dot u v = sum_list (map (\<lambda>c. u ! c * v ! c) [0..<n])"
    unfolding dot_def using a
    by (intro arg_cong[where f = sum_list] nth_equalityI) simp_all
  also have "\<dots> = (\<Sum>c<n. u ! c * v ! c)"
    by (simp add: interv_sum_list_conv_sum_set_nat atLeast0LessThan)
  finally show ?thesis .
qed

lemma attn_slice:
  assumes "b < length Q" "b < length K" "b < length msk"
    "h < length (Q ! b)" "h < length (K ! b)" "h < length (msk ! b)"
  shows "ScaleDotProductAttention_attn Q K msk d_k ! b ! h =
    map softmax_vec (map2 (map2 (\<lambda>a m. if m then - 1000000000 else a))
      (map (map (\<lambda>a. a / sqrt (real d_k))) (matmul2 (Q ! b ! h) (transpose2 (K ! b ! h))))
      (msk ! b ! h))"
  using assms
  by (simp add: ScaleDotProductAttention_attn_def softmax_def masked_fill_def div_scalar_def
      matmul_def transpose_last_def)

lemma matmul_slice:
  assumes "b < length A" "b < length V" "h < length (A ! b)" "h < length (V ! b)"
  shows "matmul A V ! b ! h = matmul2 (A ! b ! h) (V ! b ! h)"
  using assms by (simp add: matmul_def)

lemma softmax_vec_nth:
  assumes "j < length v"
  shows "softmax_vec v ! j = exp (v ! j) / (\<Sum>k<length v. exp (v ! k))"
proof -
  have "sum_list (map exp v) = (\<Sum>k<length v. exp (v ! k))"
    by (simp add: sum_list_sum_nth atLeast0LessThan)
  then show ?thesis using assms by (simp add: softmax_vec_def)
qed

lemma masked_row:
  assumes Q: "shape2 Sq D q" and K: "shape2 Sk D k" and M: "shape2 Sq Sk m"
    and pos: "0 < Sk" "0 < D" and i: "i < Sq"
  shows "map2 (map2 (\<lambda>a m. if m then v else a))
           (map (map (\<lambda>a. a / c)) (matmul2 q (transpose2 k))) m ! i =
         map (\<lambda>j. if m ! i ! j then v else (\<Sum>c<D. q ! i ! c * k ! j ! c) / c) [0..<Sk]"
proof -
  have tt: "transpose2 (transpose2 k) = k"
    by (rule transpose2_twice[OF K pos])
  have lq: "length q = Sq" and lm: "length m = Sq"
    using Q M by (simp_all add: shape2_length)
  have lqi: "length (q ! i) = D" and lmi: "length (m ! i) = Sk"
    using shape2_nth[OF Q i] shape2_nth[OF M i] by simp_all
  have lk: "length k = Sk" using K by (simp add: shape2_length)
  have "map2 (map2 (\<lambda>a m. if m then v else a))
           (map (map (\<lambda>a. a / c)) (matmul2 q (transpose2 k))) m ! i =
        map2 (\<lambda>a m. if m then v else a) (map (\<lambda>a. a / c) (map (dot (q ! i)) k)) (m ! i)"
    using i lq lm by (simp add: matmul2_def tt)
  also have "\<dots> = map (\<lambda>j. if m ! i ! j then v else (\<Sum>c<D. q ! i ! c * k ! j ! c) / c) [0..<Sk]"
  proof (rule nth_equalityI)
    show "length (map2 (\<lambda>a m. if m then v else a) (map (\<lambda>a. a / c) (map (dot (q ! i)) k)) (m ! i)) =
          length (map (\<lambda>j. if m ! i ! j then v else (\<Sum>c<D. q ! i ! c * k ! j ! c) / c) [0..<Sk])"
      using lk lmi by simp
  next
    fix j
    assume "j < length (map2 (\<lambda>a m. if m then v else a) (map (\<lambda>a. a / c) (map (dot (q ! i)) k)) (m ! i))"
    then have j: "j < Sk" using lk lmi by simp
    have "dot (q ! i) (k ! j) = (\<Sum>c<D. q ! i ! c * k ! j ! c)"
      by (rule dot_sum[OF lqi shape2_nth[OF K j]])
    then show "map2 (\<lambda>a m. if m then v else a) (map (\<lambda>a. a / c) (map (dot (q ! i)) k)) (m ! i) ! j =
          map (\<lambda>j. if m ! i ! j then v else (\<Sum>c<D. q ! i ! c * k ! j ! c) / c) [0..<Sk] ! j"
      using j lk lmi by simp
  qed
  finally show ?thesis .
qed

lemma attn_row:
  assumes Q: "shape4 B H Sq D Q" and K: "shape4 B H Sk D K" and M: "shape4 B H Sq Sk msk"
    and pos: "0 < Sk" "0 < D" and b: "b < B" and h: "h < H" and i: "i < Sq"
  shows "ScaleDotProductAttention_attn Q K msk D ! b ! h ! i =
         map (attn_at Q K msk D Sk b h i) [0..<Sk]"
proof -
  have q: "shape2 Sq D (Q ! b ! h)" and k: "shape2 Sk D (K ! b ! h)"
    and m: "shape2 Sq Sk (msk ! b ! h)"
    using shape4_nth2[OF Q b h] shape4_nth2[OF K b h] shape4_nth2[OF M b h] by simp_all
  have lens: "b < length Q" "b < length K" "b < length msk"
    "h < length (Q ! b)" "h < length (K ! b)" "h < length (msk ! b)"
    using b h shape4_length[OF Q] shape4_length[OF K] shape4_length[OF M]
      shape3_length[OF shape4_nth[OF Q b]] shape3_length[OF shape4_nth[OF K b]]
      shape3_length[OF shape4_nth[OF M b]] by simp_all
  let ?row = "map (\<lambda>j. if msk ! b ! h ! i ! j then - 1000000000
                 else (\<Sum>c<D. Q ! b ! h ! i ! c * K ! b ! h ! j ! c) / sqrt (real D)) [0..<Sk]"
  have li: "i < length (msk ! b ! h)" "i < length (Q ! b ! h)"
    using i shape2_length[OF m] shape2_length[OF q] by simp_all
  have "ScaleDotProductAttention_attn Q K msk D ! b ! h ! i =
        softmax_vec (map2 (map2 (\<lambda>a m. if m then - 1000000000 else a))
          (map (map (\<lambda>a. a / sqrt (real D))) (matmul2 (Q ! b ! h) (transpose2 (K ! b ! h))))
          (msk ! b ! h) ! i)"
    unfolding attn_slice[OF lens] using li by (simp add: matmul2_def)
  also have "\<dots> = softmax_vec ?row"
    by (simp only: masked_row[OF q k m pos i])
  also have "\<dots> = map (attn_at Q K msk D Sk b h i) [0..<Sk]"
  proof (rule nth_equalityI)
    show "length (softmax_vec ?row) = length (map (attn_at Q K msk D Sk b h i) [0..<Sk])"
      by (simp add: softmax_vec_def)
  next
    fix j assume "j < length (softmax_vec ?row)"
    then have j: "j < Sk" by (simp add: softmax_vec_def)
    then have "softmax_vec ?row ! j = exp (?row ! j) / (\<Sum>k<length ?row. exp (?row ! k))"
      by (intro softmax_vec_nth) simp
    also have "\<dots> = attn_at Q K msk D Sk b h i j"
    proof -
      have "(\<Sum>k<length ?row. exp (?row ! k)) = (\<Sum>k<Sk. exp (scores_at Q K msk D b h i k))"
        by (rule sum.cong) (simp_all add: scores_at_def)
      moreover have "?row ! j = scores_at Q K msk D b h i j"
        using j by (simp add: scores_at_def)
      ultimately show ?thesis by (simp only: attn_at_def)
    qed
    finally show "softmax_vec ?row ! j = map (attn_at Q K msk D Sk b h i) [0..<Sk] ! j"
      using j by simp
  qed
  finally show ?thesis .
qed

lemma attn_shape:
  assumes Q: "shape4 B H Sq D Q" and K: "shape4 B H Sk D K" and M: "shape4 B H Sq Sk msk"
    and pos: "0 < Sk" "0 < D"
  shows "shape4 B H Sq Sk (ScaleDotProductAttention_attn Q K msk D)"
proof (rule shape4_I)
  show "length (ScaleDotProductAttention_attn Q K msk D) = B"
    using shape4_length[OF Q] shape4_length[OF K] shape4_length[OF M]
    by (simp add: ScaleDotProductAttention_attn_def softmax_def masked_fill_def div_scalar_def
        matmul_def transpose_last_def)
next
  fix b assume b: "b < B"
  have lens: "b < length Q" "b < length K" "b < length msk"
    using b shape4_length[OF Q] shape4_length[OF K] shape4_length[OF M] by simp_all
  have lb: "length (Q ! b) = H" "length (K ! b) = H" "length (msk ! b) = H"
    using shape3_length[OF shape4_nth[OF Q b]] shape3_length[OF shape4_nth[OF K b]]
      shape3_length[OF shape4_nth[OF M b]] by simp_all
  show "shape3 H Sq Sk (ScaleDotProductAttention_attn Q K msk D ! b)"
  proof (rule shape3_I)
    show "length (ScaleDotProductAttention_attn Q K msk D ! b) = H"
      using lens lb
      by (simp add: ScaleDotProductAttention_attn_def softmax_def masked_fill_def div_scalar_def
          matmul_def transpose_last_def)
  next
    fix h assume h: "h < H"
    have q: "shape2 Sq D (Q ! b ! h)" and m: "shape2 Sq Sk (msk ! b ! h)"
      using shape4_nth2[OF Q b h] shape4_nth2[OF M b h] by simp_all
    have l: "length (ScaleDotProductAttention_attn Q K msk D ! b ! h) = Sq"
      using lens lb h shape2_length[OF q] shape2_length[OF m]
      by (simp add: attn_slice matmul2_def)
    show "shape2 Sq Sk (ScaleDotProductAttention_attn Q K msk D ! b ! h)"
    proof (rule shape2_I[OF l])
      fix i assume "i < Sq"
      then show "length (ScaleDotProductAttention_attn Q K msk D ! b ! h ! i) = Sk"
        by (simp add: attn_row[OF Q K M pos b h])
    qed
  qed
qed

lemma matmul2_row:
  assumes W: "shape2 Sq Sk w" and V: "shape2 Sk D v" and pos: "0 < Sk" and i: "i < Sq"
  shows "matmul2 w v ! i = map (\<lambda>c. \<Sum>j<Sk. w ! i ! j * v ! j ! c) [0..<D]"
proof -
  have lw: "length w = Sq" and lv: "length v = Sk"
    using W V by (simp_all add: shape2_length)
  have "matmul2 w v ! i = map (dot (w ! i)) (transpose2 v)"
    using i lw by (simp add: matmul2_def)
  also have "\<dots> = map (\<lambda>c. dot (w ! i) (map (\<lambda>r. r ! c) v)) [0..<D]"
    by (simp add: transpose2_rect[OF V pos] comp_def)
  also have "\<dots> = map (\<lambda>c. \<Sum>j<Sk. w ! i ! j * v ! j ! c) [0..<D]"
  proof (rule map_cong[OF refl])
    fix c assume "c \<in> set [0..<D]"
    have "dot (w ! i) (map (\<lambda>r. r ! c) v) = (\<Sum>j<Sk. w ! i ! j * map (\<lambda>r. r ! c) v ! j)"
      by (rule dot_sum) (use shape2_nth[OF W i] lv in simp_all)
    also have "\<dots> = (\<Sum>j<Sk. w ! i ! j * v ! j ! c)"
      using lv by (intro sum.cong) simp_all
    finally show "dot (w ! i) (map (\<lambda>r. r ! c) v) = (\<Sum>j<Sk. w ! i ! j * v ! j ! c)" .
  qed
  finally show ?thesis .
qed

section \<open>Scaled dot-product attention (C7)\<close>

text \<open>
  Claim C7. For \<open>Q\<close> of shape [batch, heads, seq_q, d_k], \<open>K\<close> and \<open>V\<close> of shape
  [batch, heads, seq_k, d_k] and a boolean mask of shape [batch, heads, seq_q, seq_k],
  \<^verbatim>\<open>ScaleDotProductAttention.forward\<close> returns a tensor of shape [batch, heads, seq_q, d_k]
  whose entry at query \<open>i\<close> and column \<open>c\<close> is the sum over the keys \<open>j\<close> of the attention
  weight times \<open>V[j][c]\<close>; the weight is the softmax over the keys of the scores
  \<open>Q\<^sub>i \<cdot> K\<^sub>j / sqrt d_k\<close>, with the masked scores overwritten by \<open>-1e9\<close> before the softmax.
\<close>

theorem ScaleDotProductAttention_forward_formula:
  assumes Q: "shape4 B H Sq d_k Q" and K: "shape4 B H Sk d_k K" and V: "shape4 B H Sk d_k V"
    and M: "shape4 B H Sq Sk msk" and pos: "0 < Sk" "0 < d_k"
  shows "shape4 B H Sq d_k (ScaleDotProductAttention_forward Q K V msk d_k) \<and>
         (\<forall>b<B. \<forall>h<H. \<forall>i<Sq. \<forall>c<d_k.
            ScaleDotProductAttention_forward Q K V msk d_k ! b ! h ! i ! c =
            (\<Sum>j<Sk. attn_at Q K msk d_k Sk b h i j * V ! b ! h ! j ! c))"
proof -
  let ?A = "ScaleDotProductAttention_attn Q K msk d_k"
  have A: "shape4 B H Sq Sk ?A" by (rule attn_shape[OF Q K M pos])
  have ctx: "ScaleDotProductAttention_forward Q K V msk d_k = matmul ?A V"
    by (simp add: ScaleDotProductAttention_forward_def)
  have row: "matmul ?A V ! b ! h ! i =
      map (\<lambda>c. \<Sum>j<Sk. attn_at Q K msk d_k Sk b h i j * V ! b ! h ! j ! c) [0..<d_k]"
    if b: "b < B" and h: "h < H" and i: "i < Sq" for b h i
  proof -
    have lens: "b < length ?A" "b < length V" "h < length (?A ! b)" "h < length (V ! b)"
      using b h shape4_length[OF A] shape4_length[OF V]
        shape3_length[OF shape4_nth[OF A b]] shape3_length[OF shape4_nth[OF V b]] by simp_all
    have "matmul ?A V ! b ! h ! i = matmul2 (?A ! b ! h) (V ! b ! h) ! i"
      by (simp only: matmul_slice[OF lens])
    also have "\<dots> = map (\<lambda>c. \<Sum>j<Sk. ?A ! b ! h ! i ! j * V ! b ! h ! j ! c) [0..<d_k]"
      by (rule matmul2_row[OF shape4_nth2[OF A b h] shape4_nth2[OF V b h] pos(1) i])
    also have "\<dots> = map (\<lambda>c. \<Sum>j<Sk. attn_at Q K msk d_k Sk b h i j * V ! b ! h ! j ! c) [0..<d_k]"
      by (simp add: attn_row[OF Q K M pos b h i])
    finally show ?thesis .
  qed
  have shape: "shape4 B H Sq d_k (matmul ?A V)"
  proof (rule shape4_I)
    show "length (matmul ?A V) = B"
      using shape4_length[OF A] shape4_length[OF V] by (simp add: matmul_def)
  next
    fix b assume b: "b < B"
    have lb: "b < length ?A" "b < length V" "length (?A ! b) = H" "length (V ! b) = H"
      using b shape4_length[OF A] shape4_length[OF V]
        shape3_length[OF shape4_nth[OF A b]] shape3_length[OF shape4_nth[OF V b]] by simp_all
    show "shape3 H Sq d_k (matmul ?A V ! b)"
    proof (rule shape3_I)
      show "length (matmul ?A V ! b) = H"
        using lb by (simp add: matmul_def)
    next
      fix h assume h: "h < H"
      have "length (matmul ?A V ! b ! h) = Sq"
        using lb h shape2_length[OF shape4_nth2[OF A b h]]
        by (simp add: matmul_slice matmul2_def)
      then show "shape2 Sq d_k (matmul ?A V ! b ! h)"
        by (rule shape2_I) (simp add: row[OF b h])
    qed
  qed
  show ?thesis
    unfolding ctx using shape by (simp add: row)
qed

theorem ScaleDotProductAttention_forward_formula_witness:
  "shape4 1 1 2 1 [[[[1 :: real], [2]]]] \<and> shape4 1 1 2 1 [[[[1 :: real], [0]]]] \<and>
   shape4 1 1 2 1 [[[[3 :: real], [5]]]] \<and>
   shape4 1 1 2 2 [[[[False, True], [False, False]]]] \<and>
   shape4 1 1 2 1
     (ScaleDotProductAttention_forward [[[[1], [2]]]] [[[[1], [0]]]] [[[[3], [5]]]]
        [[[[False, True], [False, False]]]] 1) \<and>
   ScaleDotProductAttention_forward [[[[1], [2]]]] [[[[1], [0]]]] [[[[3], [5]]]]
        [[[[False, True], [False, False]]]] 1 ! 0 ! 0 ! 1 ! 0 =
   (\<Sum>j<2. attn_at [[[[1], [2]]]] [[[[1], [0]]]] [[[[False, True], [False, False]]]] 1 2 0 0 1 j
      * [[[[3], [5]]]] ! 0 ! 0 ! j ! 0)"
  using ScaleDotProductAttention_forward_formula
    [of 1 1 2 1 "[[[[1], [2]]]]" 2 "[[[[1], [0]]]]" "[[[[3], [5]]]]"
        "[[[[False, True], [False, False]]]]"]
  by (simp add: shape4_def shape3_def shape2_def)

section \<open>The causal mask in the decoder's self-attention (C2)\<close>

lemma pad_mask_nth:
  assumes "shape2 B S d" "b < B" "i < S" "j < S"
  shows "get_attn_pad_mask d d ! b ! i ! j = (d ! b ! j = 0)"
  using assms shape2_length[OF assms(1)] shape2_nth[OF assms(1,2)]
  by (simp add: get_attn_pad_mask_def)

lemma subsequence_mask_nth:
  assumes "shape2 B S d" "b < B" "i < S" "j < S"
  shows "get_attn_subsequence_mask d ! b ! i ! j = (i < j)"
  using assms shape2_length[OF assms(1)] shape2_nth[OF assms(1,2)]
  by (simp add: get_attn_subsequence_mask_def)

lemma dec_mask_nth:
  assumes "shape2 B S d" "b < B" "i < S" "j < S"
  shows "dec_self_attn_mask_of d ! b ! i ! j = (d ! b ! j = 0 \<or> i < j)"
  using assms shape2_length[OF assms(1)] shape2_nth[OF assms(1,2)]
  by (simp add: dec_self_attn_mask_of_def get_attn_pad_mask_def get_attn_subsequence_mask_def
      mask_add_def torch_gt_def)

lemma dec_mask_shape:
  assumes "shape2 B S d"
  shows "shape3 B S S (dec_self_attn_mask_of d)"
proof (rule shape3_I)
  show "length (dec_self_attn_mask_of d) = B"
    using shape2_length[OF assms]
    by (simp add: dec_self_attn_mask_of_def get_attn_pad_mask_def get_attn_subsequence_mask_def
      mask_add_def torch_gt_def)
next
  fix b assume b: "b < B"
  show "shape2 S S (dec_self_attn_mask_of d ! b)"
    using b shape2_length[OF assms] shape2_nth[OF assms b]
    by (simp add: dec_self_attn_mask_of_def get_attn_pad_mask_def get_attn_subsequence_mask_def
      mask_add_def torch_gt_def shape2_def list_all_length)
qed

lemma repeat_heads_shape:
  assumes "shape3 B Sq Sk m"
  shows "shape4 B H Sq Sk (repeat_heads H m)"
  using assms by (simp add: shape4_def shape3_def repeat_heads_def list_all_length)

lemma repeat_heads_nth:
  assumes "b < length m" "h < H"
  shows "repeat_heads H m ! b ! h = m ! b"
  using assms by (simp add: repeat_heads_def)

lemma chunk_1_2: "chunk (Suc 0) [a, b] = [[a], [b]]"
  by (simp add: chunk_def upt_0_2)

lemma chunk_1_1: "chunk (Suc 0) [a] = [[a]]"
  by (simp add: chunk_def)

lemma dec_mask_01: "dec_self_attn_mask_of [[0, 1]] = [[[True, True], [True, False]]]"
  by (simp add: dec_self_attn_mask_of_def get_attn_pad_mask_def get_attn_subsequence_mask_def
      mask_add_def torch_gt_def upt_0_2)

text \<open>
  Claim C2 says that the attention weight of a later key is exactly zero. The mask does
  not remove a key: it sets its score to \<open>-1e9\<close>, and the softmax of a row in which every
  key is masked is uniform. For the decoder input \<open>[0, 1]\<close>, whose first token is the
  padding token, query 0 has both keys masked and gives the later key the weight 1/2.
\<close>

theorem fully_masked_row_counterexample:
  "MultiheadAttention_attn
     \<lparr>mha_embed_dim = 1, mha_num_heads = 1, mha_dropout = 0, mha_head_dim = 1,
      q_w = \<lparr>weight = [[1]], bias = None\<rparr>, k_w = \<lparr>weight = [[1]], bias = None\<rparr>,
      v_w = \<lparr>weight = [[1]], bias = None\<rparr>, fc = \<lparr>weight = [[1]], bias = None\<rparr>\<rparr>
     [[[1], [2]]] [[[1], [2]]] (dec_self_attn_mask_of [[0, 1]]) ! 0 ! 0 ! 0 ! 1 = 1 / 2"
  unfolding dec_mask_01
  by (simp add: MultiheadAttention_attn_def Linear_forward_def linear_vec_def dot_def
      view4_def chunk_1_2 chunk_1_1 transpose12_def transpose2_def repeat_heads_def
      ScaleDotProductAttention_attn_def matmul_def matmul2_def transpose_last_def div_scalar_def
      masked_fill_def softmax_def softmax_vec_def upt_0_2)

lemma dec_mask_heads_nth:
  assumes D: "shape2 B S d" and b: "b < B" and h: "h < H" and i: "i < S" and j: "j < S"
  shows "repeat_heads H (dec_self_attn_mask_of d) ! b ! h ! i ! j = (d ! b ! j = 0 \<or> i < j)"
proof -
  have "b < length (dec_self_attn_mask_of d)"
    using shape3_length[OF dec_mask_shape[OF D]] b by simp
  then show ?thesis
    by (simp add: repeat_heads_nth[OF _ h] dec_mask_nth[OF D b i j])
qed

lemma exp_105_gt: "(2 :: real) ^ 150 < exp 105"
proof -
  have "1 + 7 / 40 + (7 / 40)\<^sup>2 / 2 \<le> exp (7 / 40 :: real)"
    by (rule exp_lower_Taylor_quadratic) simp
  then have a: "(3809 / 3200 :: real) \<le> exp (7 / 40)"
    by (simp add: power2_eq_square)
  have "(2 :: real) < (3809 / 3200) ^ 4" by (simp add: power4_eq_xxxx)
  also have "\<dots> \<le> exp (7 / 40) ^ 4"
    by (rule power_mono[OF a]) simp
  also have "\<dots> = exp (7 / 10 :: real)"
    using exp_of_nat_mult[of 4 "7 / 40 :: real"] by simp
  finally have b: "(2 :: real) < exp (7 / 10)" .
  have "(2 :: real) ^ 150 < exp (7 / 10) ^ 150"
    by (rule power_strict_mono[OF b]) simp_all
  also have "\<dots> = exp (105 :: real)"
    using exp_of_nat_mult[of 150 "7 / 10 :: real"] by simp
  finally show ?thesis .
qed

lemma exp_minus_105_lt: "exp (- 105 :: real) < 1 / 2 ^ 150"
proof -
  have "1 / exp (105 :: real) < 1 / 2 ^ 150"
    using exp_105_gt by (intro divide_strict_left_mono) simp_all
  then show ?thesis by (simp add: exp_minus inverse_eq_divide)
qed

text \<open>
  Claim C2, amended. In the decoder's self-attention the score of a later key \<open>j > i\<close> is
  overwritten by \<open>-1e9\<close>, and its weight is not negative and at most \<open>exp(-1e9 - s)\<close> for
  every score \<open>s\<close> of the row. Beside a key whose score is at least \<open>-1e9 + 105\<close>, as
  any unmasked key of ordinary size is, the weight is below \<open>1 / 2 ^ 150\<close>, half of the
  least positive single-precision number, so that single-precision arithmetic returns
  zero for it. On a row whose keys are all masked it is \<open>1 / seq_len\<close>, not zero.
\<close>

theorem decoder_future_weight:
  assumes Q: "shape4 B H S d_k Q" and K: "shape4 B H S d_k K" and D: "shape2 B S dec_inputs"
    and pos: "0 < d_k" and b: "b < B" and h: "h < H" and ij: "i < j" and j: "j < S"
  shows "scores_at Q K (repeat_heads H (dec_self_attn_mask_of dec_inputs)) d_k b h i j = - 1000000000 \<and>
    0 \<le> ScaleDotProductAttention_attn Q K (repeat_heads H (dec_self_attn_mask_of dec_inputs)) d_k ! b ! h ! i ! j \<and>
    (\<forall>k<S. ScaleDotProductAttention_attn Q K (repeat_heads H (dec_self_attn_mask_of dec_inputs)) d_k ! b ! h ! i ! j
        \<le> exp (- 1000000000 - scores_at Q K (repeat_heads H (dec_self_attn_mask_of dec_inputs)) d_k b h i k)) \<and>
    ((\<exists>k<S. - 1000000000 + 105 \<le>
          scores_at Q K (repeat_heads H (dec_self_attn_mask_of dec_inputs)) d_k b h i k) \<longrightarrow>
        ScaleDotProductAttention_attn Q K (repeat_heads H (dec_self_attn_mask_of dec_inputs)) d_k ! b ! h ! i ! j
        < 1 / 2 ^ 150) \<and>
    ((\<forall>k<S. dec_inputs ! b ! k = 0 \<or> i < k) \<longrightarrow>
        ScaleDotProductAttention_attn Q K (repeat_heads H (dec_self_attn_mask_of dec_inputs)) d_k ! b ! h ! i ! j
        = 1 / real S)"
proof -
  let ?M = "repeat_heads H (dec_self_attn_mask_of dec_inputs)"
  let ?s = "scores_at Q K ?M d_k b h i"
  let ?Z = "\<Sum>k<S. exp (?s k)"
  let ?w = "ScaleDotProductAttention_attn Q K ?M d_k ! b ! h ! i ! j"
  have M: "shape4 B H S S ?M"
    by (rule repeat_heads_shape[OF dec_mask_shape[OF D]])
  have S: "0 < S" and i: "i < S" using ij j by simp_all
  have sj: "?s j = - 1000000000"
    using ij by (simp add: scores_at_def dec_mask_heads_nth[OF D b h i j])
  have "?w = attn_at Q K ?M d_k S b h i j"
    using j by (simp add: attn_row[OF Q K M S pos b h i])
  then have w: "?w = exp (- 1000000000) / ?Z"
    by (simp add: attn_at_def sj)
  have Zpos: "0 < ?Z"
    by (rule sum_pos) (use S in auto)
  have wnn: "0 \<le> ?w"
    unfolding w using Zpos by simp
  have bound: "?w \<le> exp (- 1000000000 - ?s k)" if k: "k < S" for k
  proof -
    have "exp (?s k) \<le> ?Z"
      by (rule member_le_sum) (use k in \<open>auto intro: less_imp_le\<close>)
    then have "exp (- 1000000000) / ?Z \<le> exp (- 1000000000) / exp (?s k)"
      using Zpos by (intro divide_left_mono) simp_all
    then show ?thesis
      unfolding w by (simp add: exp_diff)
  qed
  have tiny: "?w < 1 / 2 ^ 150" if "\<exists>k<S. - 1000000000 + 105 \<le> ?s k"
  proof -
    from that obtain k where k: "k < S" and s: "- 1000000000 + 105 \<le> ?s k" by blast
    have "?w \<le> exp (- 1000000000 - ?s k)" by (rule bound[OF k])
    also have "\<dots> \<le> exp (- 105)" using s by simp
    also have "\<dots> < 1 / 2 ^ 150" by (rule exp_minus_105_lt)
    finally show ?thesis .
  qed
  have full: "?w = 1 / real S" if all: "\<forall>k<S. dec_inputs ! b ! k = 0 \<or> i < k"
  proof -
    have "?s k = - 1000000000" if "k < S" for k
      using all that by (simp add: scores_at_def dec_mask_heads_nth[OF D b h i that])
    then have "?Z = (\<Sum>k<S. exp (- 1000000000))"
      by (intro sum.cong) simp_all
    then have "?Z = real S * exp (- 1000000000)" by simp
    then show ?thesis
      unfolding w by simp
  qed
  from sj wnn bound tiny full show ?thesis by blast
qed

theorem decoder_future_weight_witness:
  "shape4 1 1 2 1 [[[[1 :: real], [2]]]] \<and> shape2 1 2 [[1, 1 :: nat]] \<and> shape2 1 2 [[0, 1 :: nat]] \<and>
   (0 :: nat) < 1 \<and> (1 :: nat) < 2 \<and>
   scores_at [[[[1], [2]]]] [[[[1], [2]]]] (repeat_heads 1 (dec_self_attn_mask_of [[1, 1]])) 1 0 0 0 0 = 1 \<and>
   ScaleDotProductAttention_attn [[[[1], [2]]]] [[[[1], [2]]]]
         (repeat_heads 1 (dec_self_attn_mask_of [[1, 1]])) 1 ! 0 ! 0 ! 0 ! 1 < 1 / 2 ^ 150 \<and>
   ScaleDotProductAttention_attn [[[[1], [2]]]] [[[[1], [2]]]]
         (repeat_heads 1 (dec_self_attn_mask_of [[0, 1]])) 1 ! 0 ! 0 ! 0 ! 1 = 1 / 2"
proof -
  have Q: "shape4 1 1 2 1 [[[[1 :: real], [2]]]]"
    by (simp add: shape4_def shape3_def shape2_def)
  have D1: "shape2 1 2 [[1, 1 :: nat]]" and D0: "shape2 1 2 [[0, 1 :: nat]]"
    by (simp_all add: shape2_def)
  have p1: "(0 :: nat) < 1" and p2: "(1 :: nat) < 2" and p0: "(0 :: nat) < 2" by simp_all
  have s0: "scores_at [[[[1], [2]]]] [[[[1], [2]]]]
              (repeat_heads 1 (dec_self_attn_mask_of [[1, 1]])) 1 0 0 0 0 = 1"
  proof -
    have "\<not> repeat_heads 1 (dec_self_attn_mask_of [[1, 1]]) ! 0 ! 0 ! 0 ! 0"
      by (simp only: dec_mask_heads_nth[OF D1 p1 p1 p0 p0]) simp
    then show ?thesis by (simp add: scores_at_def)
  qed
  then have ex: "\<exists>k<2. - 1000000000 + 105 \<le> scores_at [[[[1], [2]]]] [[[[1], [2]]]]
              (repeat_heads 1 (dec_self_attn_mask_of [[1, 1]])) 1 0 0 0 k"
    by (intro exI[of _ 0]) simp
  have all: "\<forall>k<2. [[0, 1 :: nat]] ! 0 ! k = 0 \<or> 0 < k"
    by (simp add: less_2_cases_iff)
  note open_row = decoder_future_weight [OF Q Q D1 p1 p1 p1 p1 p2]
  note masked_row = decoder_future_weight [OF Q Q D0 p1 p1 p1 p1 p2]
  have "ScaleDotProductAttention_attn [[[[1], [2]]]] [[[[1], [2]]]]
         (repeat_heads 1 (dec_self_attn_mask_of [[1, 1]])) 1 ! 0 ! 0 ! 0 ! 1 < 1 / 2 ^ 150"
    using open_row ex by blast
  moreover have "ScaleDotProductAttention_attn [[[[1], [2]]]] [[[[1], [2]]]]
         (repeat_heads 1 (dec_self_attn_mask_of [[0, 1]])) 1 ! 0 ! 0 ! 0 ! 1 = 1 / real 2"
    using masked_row all by blast
  ultimately show ?thesis using Q D1 D0 s0 by simp
qed

section \<open>Splitting into heads and merging back (C10)\<close>

lemma drop_concat_rows:
  assumes "list_all (\<lambda>r. length r = n) xs"
  shows "drop (i * n) (concat xs) = concat (drop i xs)"
  using assms
proof (induction xs arbitrary: i)
  case Nil
  then show ?case by simp
next
  case (Cons r xs)
  show ?case
  proof (cases i)
    case 0
    then show ?thesis by simp
  next
    case (Suc k)
    have r: "length r = n" using Cons.prems by simp
    have "drop (Suc k * n) (concat (r # xs)) = drop (k * n) (drop n (r @ concat xs))"
      by (simp add: add.commute del: drop_append)
    also have "\<dots> = drop (k * n) (concat xs)"
      using r by simp
    also have "\<dots> = concat (drop k xs)"
      using Cons.IH Cons.prems by simp
    finally show ?thesis using Suc by simp
  qed
qed

lemma chunk_concat:
  assumes rows: "list_all (\<lambda>r. length r = n) xs" and n: "0 < n"
  shows "chunk n (concat xs) = xs"
proof -
  have len: "length (concat xs) = length xs * n"
    using rows by (induction xs) simp_all
  have "chunk n (concat xs) = map (\<lambda>i. take n (drop (i * n) (concat xs))) [0..<length xs]"
    using n by (simp add: chunk_def len)
  also have "\<dots> = map (\<lambda>i. xs ! i) [0..<length xs]"
  proof (rule map_cong[OF refl])
    fix i assume "i \<in> set [0..<length xs]"
    then have i: "i < length xs" by simp
    then have d: "drop i xs = xs ! i # drop (Suc i) xs"
      by (simp add: Cons_nth_drop_Suc)
    have "length (xs ! i) = n"
      using rows i by (simp add: list_all_length)
    then show "take n (drop (i * n) (concat xs)) = xs ! i"
      by (simp add: drop_concat_rows[OF rows] d)
  qed
  also have "\<dots> = xs" by (rule map_nth)
  finally show ?thesis .
qed

lemma concat_pieces:
  "length r = k * n \<Longrightarrow> concat (map (\<lambda>i. take n (drop (i * n) r)) [0..<k]) = r"
proof (induction k arbitrary: r)
  case 0
  then show ?case by simp
next
  case (Suc k)
  have l: "length (drop n r) = k * n" using Suc.prems by simp
  have "concat (map (\<lambda>i. take n (drop (i * n) r)) [0..<Suc k]) =
        take n r @ concat (map (\<lambda>i. take n (drop (Suc i * n) r)) [0..<k])"
    by (simp only: map_upt_Suc) simp
  also have "\<dots> = take n r @ concat (map (\<lambda>i. take n (drop (i * n) (drop n r))) [0..<k])"
    by (simp add: add.commute)
  also have "\<dots> = take n r @ drop n r"
    by (simp only: Suc.IH[OF l])
  finally show ?case by simp
qed

lemma concat_chunk:
  assumes "length r = k * n"
  shows "concat (chunk n r) = r"
proof (cases "n = 0")
  case True
  then show ?thesis using assms by (simp add: chunk_def)
next
  case False
  then show ?thesis using assms concat_pieces[OF assms] by (simp add: chunk_def)
qed

lemma concat_concat_map: "concat (concat xss) = concat (map concat xss)"
  by (induction xss) simp_all

lemma chunk_shape:
  assumes "length r = k * n" "0 < n"
  shows "shape2 k n (chunk n r)"
proof (rule shape2_I)
  show "length (chunk n r) = k" using assms by (simp add: chunk_def)
next
  fix i assume "i < k"
  then have "Suc i * n \<le> k * n" by (simp add: Suc_leI mult_le_mono1 del: mult_Suc)
  then have "n \<le> k * n - i * n" by simp
  then show "length (chunk n r ! i) = n"
    using assms \<open>i < k\<close> by (simp add: chunk_def)
qed

lemma chunk_nth:
  assumes "length r = k * n" "0 < n" "i < k" "c < n"
  shows "chunk n r ! i ! c = r ! (i * n + c)"
proof -
  have "Suc i * n \<le> k * n" using assms(3) by (simp add: Suc_leI mult_le_mono1 del: mult_Suc)
  then have "i * n + c < k * n" using assms(4) by simp
  then show ?thesis using assms by (simp add: chunk_def)
qed

lemma view4_rows:
  assumes x: "shape2 S (h * d) xb" and pos: "0 < h" "0 < d"
  shows "map (chunk d) (chunk (h * d) (concat xb)) = map (chunk d) xb"
    and "shape2 S h (map (chunk d) xb)"
proof -
  have rows: "list_all (\<lambda>r. length r = h * d) xb"
    using x by (simp add: shape2_def)
  show "map (chunk d) (chunk (h * d) (concat xb)) = map (chunk d) xb"
    using pos by (simp add: chunk_concat[OF rows])
  show "shape2 S h (map (chunk d) xb)"
  proof (rule shape2_I)
    show "length (map (chunk d) xb) = S" using x by (simp add: shape2_length)
  next
    fix i assume i: "i < S"
    have "shape2 h d (chunk d (xb ! i))"
      by (rule chunk_shape[OF shape2_nth[OF x i] pos(2)])
    then show "length (map (chunk d) xb ! i) = h"
      using i shape2_length[OF x] by (simp add: shape2_length)
  qed
qed

lemma merge_heads_batch:
  assumes x: "shape2 S (h * d) xb" and pos: "0 < h" "0 < d"
  shows "chunk (h * d) (concat (concat
           (transpose2 (transpose2 (map (chunk d) (chunk (h * d) (concat xb))))))) = xb"
proof -
  have rows: "list_all (\<lambda>r. length r = h * d) xb"
    using x by (simp add: shape2_def)
  have tt: "transpose2 (transpose2 (map (chunk d) xb)) = map (chunk d) xb"
  proof (cases "S = 0")
    case True
    then have "xb = []" using x by (simp add: shape2_def)
    then show ?thesis by (simp add: transpose2_def)
  next
    case False
    then show ?thesis
      by (intro transpose2_twice[OF view4_rows(2)[OF x pos]]) (use pos in simp_all)
  qed
  have cc: "concat (concat (map (chunk d) xb)) = concat xb"
  proof -
    have "map concat (map (chunk d) xb) = xb"
    proof (rule nth_equalityI)
      show "length (map concat (map (chunk d) xb)) = length xb" by simp
    next
      fix i assume "i < length (map concat (map (chunk d) xb))"
      then have i: "i < S" using x by (simp add: shape2_length)
      have "concat (chunk d (xb ! i)) = xb ! i"
        by (rule concat_chunk[OF shape2_nth[OF x i]])
      then show "map concat (map (chunk d) xb) ! i = xb ! i"
        using i x by (simp add: shape2_length)
    qed
    then show ?thesis by (simp add: concat_concat_map)
  qed
  show ?thesis
    using pos by (simp add: view4_rows(1)[OF x pos] tt cc chunk_concat[OF rows])
qed

text \<open>
  Claim C10. A tensor of shape [batch, seq, heads * d_k] that is split as the projections
  are (\<^verbatim>\<open>view\<close>, then \<^verbatim>\<open>transpose(1, 2)\<close>) and merged as the context is (\<^verbatim>\<open>transpose(1, 2)\<close>,
  then \<^verbatim>\<open>reshape\<close>) is the tensor itself. The split has shape [batch, heads, seq, d_k] and
  holds, for head \<open>hd\<close>, position \<open>s\<close> and column \<open>c\<close>, the element \<open>hd * d_k + c\<close> of row \<open>s\<close>.
\<close>

theorem split_merge_heads_roundtrip:
  assumes x: "shape3 B S (h * d_k) x" and pos: "0 < h" "0 < d_k"
  shows "reshape3 (h * d_k) (transpose12 (transpose12 (view4 h d_k x))) = x \<and>
         (0 < S \<longrightarrow> shape4 B h S d_k (transpose12 (view4 h d_k x))) \<and>
         (\<forall>b<B. \<forall>hd<h. \<forall>s<S. \<forall>c<d_k.
            transpose12 (view4 h d_k x) ! b ! hd ! s ! c = x ! b ! s ! (hd * d_k + c))"
proof -
  have lx: "length x = B" using x by (simp add: shape3_length)
  have round: "reshape3 (h * d_k) (transpose12 (transpose12 (view4 h d_k x))) = x"
  proof (rule nth_equalityI)
    show "length (reshape3 (h * d_k) (transpose12 (transpose12 (view4 h d_k x)))) = length x"
      by (simp add: reshape3_def transpose12_def view4_def)
  next
    fix b assume "b < length (reshape3 (h * d_k) (transpose12 (transpose12 (view4 h d_k x))))"
    then have b: "b < B" using lx by (simp add: reshape3_def transpose12_def view4_def)
    show "reshape3 (h * d_k) (transpose12 (transpose12 (view4 h d_k x))) ! b = x ! b"
      using b lx merge_heads_batch[OF shape3_nth[OF x b] pos]
      by (simp add: reshape3_def transpose12_def view4_def)
  qed
  have split: "transpose12 (view4 h d_k x) ! b = transpose2 (map (chunk d_k) (x ! b))"
    if b: "b < B" for b
    using b lx view4_rows(1)[OF shape3_nth[OF x b] pos]
    by (simp add: transpose12_def view4_def)
  have shape: "shape4 B h S d_k (transpose12 (view4 h d_k x))" if S: "0 < S"
  proof (rule shape4_I)
    show "length (transpose12 (view4 h d_k x)) = B"
      using lx by (simp add: transpose12_def view4_def)
  next
    fix b assume b: "b < B"
    have xb: "shape2 S (h * d_k) (x ! b)" by (rule shape3_nth[OF x b])
    have v: "shape2 S h (map (chunk d_k) (x ! b))" by (rule view4_rows(2)[OF xb pos])
    have t: "shape2 h S (transpose2 (map (chunk d_k) (x ! b)))"
      by (rule transpose2_shape[OF v S])
    show "shape3 h S d_k (transpose12 (view4 h d_k x) ! b)"
      unfolding split[OF b]
    proof (rule shape3_I[OF shape2_length[OF t]])
      fix hd assume hd: "hd < h"
      show "shape2 S d_k (transpose2 (map (chunk d_k) (x ! b)) ! hd)"
      proof (rule shape2_I)
        show "length (transpose2 (map (chunk d_k) (x ! b)) ! hd) = S"
          by (rule shape2_nth[OF t hd])
      next
        fix s assume s: "s < S"
        have "shape2 h d_k (chunk d_k (x ! b ! s))"
          by (rule chunk_shape[OF shape2_nth[OF xb s] pos(2)])
        then show "length (transpose2 (map (chunk d_k) (x ! b)) ! hd ! s) = d_k"
          using s hd shape2_length[OF xb]
          by (simp add: transpose2_nth[OF v S hd] shape2_nth)
      qed
    qed
  qed
  have entry: "transpose12 (view4 h d_k x) ! b ! hd ! s ! c = x ! b ! s ! (hd * d_k + c)"
    if b: "b < B" and hd: "hd < h" and s: "s < S" and c: "c < d_k" for b hd s c
  proof -
    have xb: "shape2 S (h * d_k) (x ! b)" by (rule shape3_nth[OF x b])
    have v: "shape2 S h (map (chunk d_k) (x ! b))" by (rule view4_rows(2)[OF xb pos])
    have S: "0 < S" using s by simp
    have "transpose12 (view4 h d_k x) ! b ! hd ! s = chunk d_k (x ! b ! s) ! hd"
      using s shape2_length[OF xb] by (simp add: split[OF b] transpose2_nth[OF v S hd])
    then show ?thesis
      by (simp add: chunk_nth[OF shape2_nth[OF xb s] pos(2) hd c])
  qed
  from round shape entry show ?thesis by blast
qed

theorem split_merge_heads_roundtrip_witness:
  "shape3 1 2 (2 * 2) [[[1 :: real, 2, 3, 4], [5, 6, 7, 8]]] \<and> (0 :: nat) < 2 \<and>
   reshape3 (2 * 2) (transpose12 (transpose12 (view4 2 2 [[[1, 2, 3, 4], [5, 6, 7, 8]]]))) =
     [[[1, 2, 3, 4], [5, 6, 7, 8]]] \<and>
   transpose12 (view4 2 2 [[[1, 2, 3, 4], [5, 6, 7, 8]]]) ! 0 ! 1 ! 0 ! 1 = 4"
proof -
  have x: "shape3 1 2 (2 * 2) [[[1 :: real, 2, 3, 4], [5, 6, 7, 8]]]"
    by (simp add: shape3_def shape2_def)
  have p: "(0 :: nat) < 2" by simp
  note th = split_merge_heads_roundtrip [OF x p p]
  have "transpose12 (view4 2 2 [[[1, 2, 3, 4], [5, 6, 7, 8]]]) ! 0 ! 1 ! 0 ! 1 =
        [[[1 :: real, 2, 3, 4], [5, 6, 7, 8]]] ! 0 ! 0 ! (1 * 2 + 1)"
    using th by simp
  then have "transpose12 (view4 2 2 [[[1, 2, 3, 4], [5, 6, 7, 8]]]) ! 0 ! 1 ! 0 ! 1 = (4 :: real)"
    by (simp add: numeral_3_eq_3)
  then show ?thesis using th x by simp
qed

section \<open>The feed-forward block (C6)\<close>

lemma map_state_map:
  assumes "\<And>a s. f (u a) s = (v (fst (f a s)), snd (f a s))"
  shows "map_state f (map u xs) s = (map v (fst (map_state f xs s)), snd (map_state f xs s))"
  by (induction xs arbitrary: s) (simp_all add: assms split_beta)

lemma noise_nonneg: "0 \<le> p0 \<Longrightarrow> p0 \<le> 1 \<Longrightarrow> 0 \<le> noise g p0 k"
  by (simp add: noise_def)

lemma bernoulli_mul_relu:
  assumes "0 \<le> p0" "p0 \<le> 1"
  shows "bernoulli_mul g p0 (max 0 a) s =
         (max 0 (fst (bernoulli_mul g p0 a s)), snd (bernoulli_mul g p0 a s))"
proof -
  have "max 0 a * noise g p0 s = max 0 (a * noise g p0 s)"
    using noise_nonneg[OF assms, of g s]
    by (simp add: max_def mult_nonpos_nonneg zero_le_mult_iff mult_le_0_iff)
  then show ?thesis by (simp add: bernoulli_mul_def)
qed

lemma numel3_ReLU: "numel3 (ReLU x) = numel3 x"
  by (simp add: numel3_def ReLU_def map_concat[symmetric])

lemma Dropout_forward_ReLU:
  assumes "0 \<le> drop_p d" "drop_p d \<le> 1"
  shows "Dropout_forward d g (ReLU x) n =
         (ReLU (fst (Dropout_forward d g x n)), snd (Dropout_forward d g x n))"
proof -
  have "map_state (map_state (map_state (bernoulli_mul g (drop_p d)))) (ReLU x) n =
        (ReLU (fst (map_state (map_state (map_state (bernoulli_mul g (drop_p d)))) x n)),
         snd (map_state (map_state (map_state (bernoulli_mul g (drop_p d)))) x n))"
    unfolding ReLU_def
    by (intro map_state_map bernoulli_mul_relu assms)
  then show ?thesis
    by (simp add: Dropout_forward_def numel3_ReLU) (simp add: ReLU_def)
qed

lemma FeedForWard_init_dropout_range:
  assumes "FeedForWard_init d_model feed_forward_dim dropout ws = Inr m"
  shows "0 \<le> drop_p (ff_dropout m) \<and> drop_p (ff_dropout m) \<le> 1 \<and> drop_p (ff_dropout m) = dropout"
  using assms
  by (auto simp: FeedForWard_init_def Dropout_init_def split: prod.splits if_splits)

text \<open>
  Claim C6. \<^verbatim>\<open>FeedForWard.forward\<close> returns
  \<^verbatim>\<open>LayerNorm(Linear2(Dropout(ReLU(Linear1(input)))) + input)\<close>. The module applies the
  dropout before the ReLU; for a probability in [0, 1], the only ones the constructor of
  the dropout accepts, the two orders give the same tensor on the same samples of the
  generator, since the dropout multiplies by a factor that is not negative.
\<close>

theorem FeedForWard_forward_formula:
  assumes "0 \<le> drop_p (ff_dropout m)" "drop_p (ff_dropout m) \<le> 1"
  shows "FeedForWard_forward m g inputs n = FeedForWard_forward_spec m g inputs n"
  by (simp add: FeedForWard_forward_def FeedForWard_forward_spec_def
      Dropout_forward_ReLU[OF assms] split_beta Let_def)

theorem FeedForWard_forward_formula_witness:
  "FeedForWard_init 1 1 (1 / 2) (([[1]], [0]), ([[1]], [0])) =
     Inr \<lparr>ff_d_model = 1, ff_linear1 = \<lparr>weight = [[1]], bias = Some [0]\<rparr>,
          ff_dropout = \<lparr>drop_p = 1 / 2, drop_training = True\<rparr>,
          ff_linear2 = \<lparr>weight = [[1]], bias = Some [0]\<rparr>\<rparr> \<and>
   FeedForWard_forward
     \<lparr>ff_d_model = 1, ff_linear1 = \<lparr>weight = [[1]], bias = Some [0]\<rparr>,
      ff_dropout = \<lparr>drop_p = 1 / 2, drop_training = True\<rparr>,
      ff_linear2 = \<lparr>weight = [[1]], bias = Some [0]\<rparr>\<rparr> (\<lambda>k. True) [[[- 3]]] 0 =
   FeedForWard_forward_spec
     \<lparr>ff_d_model = 1, ff_linear1 = \<lparr>weight = [[1]], bias = Some [0]\<rparr>,
      ff_dropout = \<lparr>drop_p = 1 / 2, drop_training = True\<rparr>,
      ff_linear2 = \<lparr>weight = [[1]], bias = Some [0]\<rparr>\<rparr> (\<lambda>k. True) [[[- 3]]] 0"
  using FeedForWard_forward_formula
    [of "\<lparr>ff_d_model = 1, ff_linear1 = \<lparr>weight = [[1]], bias = Some [0]\<rparr>,
          ff_dropout = \<lparr>drop_p = 1 / 2, drop_training = True\<rparr>,
          ff_linear2 = \<lparr>weight = [[1]], bias = Some [0]\<rparr>\<rparr>" "\<lambda>k. True" "[[[- 3]]]" 0]
  by (simp add: FeedForWard_init_def Dropout_init_def)

section \<open>The divisibility check of the attention constructor (C9)\<close>

lemma div_times_eq_iff_dvd: "((a :: nat) div b) * b = a \<longleftrightarrow> b dvd a"
  by (metis dvd_div_mult_self dvd_triv_right)

text \<open>
  Claim C9. For a positive \<^verbatim>\<open>embed_dim\<close>, the constructor of \<^verbatim>\<open>MultiheadAttention\<close> raises
  when the number of heads does not divide it (the division itself raises for 0 heads,
  the assertion otherwise), so no module exists on which a forward pass could run; when
  the number of heads divides it, the constructor returns the module, with
  \<^verbatim>\<open>head_dim = embed_dim / num_heads\<close>.
\<close>

theorem MultiheadAttention_init_divisibility:
  assumes "0 < embed_dim"
  shows "(\<not> num_heads dvd embed_dim \<longrightarrow>
            MultiheadAttention_init embed_dim num_heads dropout ws =
              Inl (if num_heads = 0 then ZeroDivisionError else AssertionError)) \<and>
         (num_heads dvd embed_dim \<longrightarrow>
            (\<exists>m. MultiheadAttention_init embed_dim num_heads dropout ws = Inr m \<and>
                 mha_embed_dim m = embed_dim \<and> mha_num_heads m = num_heads \<and>
                 mha_head_dim m = embed_dim div num_heads \<and>
                 mha_head_dim m * num_heads = embed_dim))"
proof -
  obtain wq wk wv wfc where ws: "ws = (wq, wk, wv, wfc)"
    by (cases ws) auto
  have z: "num_heads dvd embed_dim \<Longrightarrow> num_heads \<noteq> 0"
    using assms by auto
  show ?thesis
    using assms z
    by (auto simp: MultiheadAttention_init_def ws div_times_eq_iff_dvd)
qed

theorem MultiheadAttention_init_divisibility_witness:
  "(0 :: nat) < 8 \<and>
   (\<exists>m. MultiheadAttention_init 8 2 0 ([], [], [], []) = Inr m \<and> mha_head_dim m = 4) \<and>
   MultiheadAttention_init 8 3 0 ([], [], [], []) = Inl AssertionError \<and>
   MultiheadAttention_init 8 0 0 ([], [], [], []) = Inl ZeroDivisionError"
proof -
  have p: "(0 :: nat) < 8" by simp
  have "\<exists>m. MultiheadAttention_init 8 2 0 ([], [], [], []) = Inr m \<and> mha_head_dim m = 4"
    using MultiheadAttention_init_divisibility [OF p, of 2 0 "([], [], [], [])"] by auto
  moreover have "MultiheadAttention_init 8 3 0 ([], [], [], []) = Inl AssertionError"
    using MultiheadAttention_init_divisibility [OF p, of 3 0 "([], [], [], [])"] by simp
  moreover have "MultiheadAttention_init 8 0 0 ([], [], [], []) = Inl ZeroDivisionError"
    using MultiheadAttention_init_divisibility [OF p, of 0 0 "([], [], [], [])"] by simp
  ultimately show ?thesis by simp
qed

section \<open>The self-attention mask of the decoder (C8)\<close>

lemma map_map2:
  assumes "\<And>x y. f (g x y) = h x y"
  shows "map f (map2 g xs ys) = map2 h xs ys"
  by (auto simp: assms)

lemma torch_gt_mask_add: "torch_gt (mask_add a b) 0 = logical_or a b"
proof -
  have "(0 :: nat) < of_bool u + of_bool v \<longleftrightarrow> u \<or> v" for u v
    by (cases u; cases v) simp_all
  then show ?thesis
    unfolding torch_gt_def mask_add_def logical_or_def
    by (intro map_map2)
qed

lemma decoder_loop_foldl:
  "decoder_loop ls g x enc m1 m2 n =
   foldl (\<lambda>(out, k) layer. TransformerDecoderLayer_forward layer g out enc m1 m2 k) (x, n) ls"
  by (induction ls arbitrary: x n) (simp_all add: split_beta)

lemma mask_entries:
  assumes "b < length d" "i < length (d ! b)" "j < length (d ! b)"
  shows "get_attn_pad_mask d d ! b ! i ! j = (d ! b ! j = 0)"
    and "get_attn_subsequence_mask d ! b ! i ! j = (i < j)"
    and "logical_or (get_attn_pad_mask d d) (get_attn_subsequence_mask d) ! b ! i ! j =
         (d ! b ! j = 0 \<or> i < j)"
  using assms
  by (simp_all add: get_attn_pad_mask_def get_attn_subsequence_mask_def logical_or_def)

text \<open>
  Claim C8. The self-attention mask that \<^verbatim>\<open>TransformerDecoder.forward\<close> computes is the
  elementwise logical OR of the padding mask of the target and the subsequence mask:
  entry \<open>(i, j)\<close> is set when the padding mask is set there or \<open>i < j\<close>. The loop hands
  this one mask to every layer.
\<close>

theorem TransformerDecoder_self_attn_mask:
  "dec_self_attn_mask_of dec_inputs =
     logical_or (get_attn_pad_mask dec_inputs dec_inputs) (get_attn_subsequence_mask dec_inputs) \<and>
   (\<forall>b<length dec_inputs. \<forall>i<length (dec_inputs ! b). \<forall>j<length (dec_inputs ! b).
      dec_self_attn_mask_of dec_inputs ! b ! i ! j =
        (get_attn_pad_mask dec_inputs dec_inputs ! b ! i ! j \<or> i < j)) \<and>
   TransformerDecoder_forward m g enc_inputs dec_inputs enc_outputs n =
     (case Embedding_forward (tgt_emb m) dec_inputs of Inl e \<Rightarrow> Inl e
      | Inr emb \<Rightarrow>
          (case PositionalEncoding_forward (pos_emb m) g emb n of Inl e \<Rightarrow> Inl e
           | Inr s \<Rightarrow>
               Inr (foldl (\<lambda>(out, k) layer.
                      TransformerDecoderLayer_forward layer g out enc_outputs
                        (logical_or (get_attn_pad_mask dec_inputs dec_inputs)
                           (get_attn_subsequence_mask dec_inputs))
                        (get_attn_pad_mask dec_inputs enc_inputs) k)
                    s (layers m))))"
proof -
  have eq: "dec_self_attn_mask_of dec_inputs =
     logical_or (get_attn_pad_mask dec_inputs dec_inputs) (get_attn_subsequence_mask dec_inputs)"
    by (simp add: dec_self_attn_mask_of_def torch_gt_mask_add)
  have entries: "dec_self_attn_mask_of dec_inputs ! b ! i ! j =
        (get_attn_pad_mask dec_inputs dec_inputs ! b ! i ! j \<or> i < j)"
    if "b < length dec_inputs" "i < length (dec_inputs ! b)" "j < length (dec_inputs ! b)"
    for b i j
    unfolding eq by (simp add: mask_entries[OF that])
  have fwd: "TransformerDecoder_forward m g enc_inputs dec_inputs enc_outputs n =
     (case Embedding_forward (tgt_emb m) dec_inputs of Inl e \<Rightarrow> Inl e
      | Inr emb \<Rightarrow>
          (case PositionalEncoding_forward (pos_emb m) g emb n of Inl e \<Rightarrow> Inl e
           | Inr s \<Rightarrow>
               Inr (foldl (\<lambda>(out, k) layer.
                      TransformerDecoderLayer_forward layer g out enc_outputs
                        (logical_or (get_attn_pad_mask dec_inputs dec_inputs)
                           (get_attn_subsequence_mask dec_inputs))
                        (get_attn_pad_mask dec_inputs enc_inputs) k)
                    s (layers m))))"
    by (simp add: TransformerDecoder_forward_def eq decoder_loop_foldl
        split: sum.splits prod.splits)
  from eq entries fwd show ?thesis by blast
qed

theorem TransformerDecoder_self_attn_mask_witness:
  "dec_self_attn_mask_of [[3, 0]] = [[[False, True], [False, True]]] \<and>
   get_attn_pad_mask [[3, 0]] [[3, 0]] = [[[False, True], [False, True]]] \<and>
   get_attn_subsequence_mask [[3, 0 :: nat]] = [[[False, True], [False, False]]] \<and>
   dec_self_attn_mask_of [[3, 0]] ! 0 ! 1 ! 1 =
     (get_attn_pad_mask [[3, 0]] [[3, 0]] ! 0 ! 1 ! 1 \<or> (1 :: nat) < 1)"
proof -
  have u: "[0..<2] = [0, Suc 0]" by code_simp
  have p: "get_attn_pad_mask [[3, 0]] [[3, 0]] = [[[False, True], [False, True]]]"
    by (simp add: get_attn_pad_mask_def)
  have q: "get_attn_subsequence_mask [[3, 0 :: nat]] = [[[False, True], [False, False]]]"
    by (simp add: get_attn_subsequence_mask_def u)
  note th = TransformerDecoder_self_attn_mask [of "[[3, 0]]"]
  have "dec_self_attn_mask_of [[3, 0]] = [[[False, True], [False, True]]]"
    using th by (simp add: p q logical_or_def)
  moreover have "dec_self_attn_mask_of [[3, 0]] ! 0 ! 1 ! 1 =
     (get_attn_pad_mask [[3, 0]] [[3, 0]] ! 0 ! 1 ! 1 \<or> (1 :: nat) < 1)"
    using th [THEN conjunct2, THEN conjunct1, rule_format, of 0 1 1] by simp
  ultimately show ?thesis using p q by simp
qed

section \<open>The operands of the cross-attention (C4)\<close>

text \<open>
  Claim C4. \<^verbatim>\<open>TransformerDecoderLayer.forward\<close> calls the cross-attention with the encoder
  output as query and the output of the decoder's self-attention as key and as value: the
  query projection and the residual connection take the encoder output, the key and value
  projections take the self-attention output.
\<close>

theorem TransformerDecoderLayer_cross_attention_operands:
  "(let s = MultiheadAttention_forward (dec_self_attn l) dec_inputs dec_inputs dec_inputs
              dec_self_attn_mask;
        a = dec_enc_attn l;
        h = mha_num_heads a;
        d_k = mha_embed_dim a div h;
        Q = transpose12 (view4 h d_k (Linear_forward (q_w a) enc_inputs));
        K = transpose12 (view4 h d_k (Linear_forward (k_w a) s));
        V = transpose12 (view4 h d_k (Linear_forward (v_w a) s));
        context = ScaleDotProductAttention_forward Q K V (repeat_heads h dec_enc_attn_mask) d_k;
        cross = LayerNorm (mha_embed_dim a)
                  (tadd3 (Linear_forward (fc a) (reshape3 (mha_embed_dim a) (transpose12 context)))
                     enc_inputs)
    in TransformerDecoderLayer_forward l g dec_inputs enc_inputs dec_self_attn_mask
         dec_enc_attn_mask n =
       FeedForWard_forward (feedforward l) g
         (MultiheadAttention_forward a enc_inputs s s dec_enc_attn_mask) n \<and>
       MultiheadAttention_forward a enc_inputs s s dec_enc_attn_mask = cross)"
  by (simp add: TransformerDecoderLayer_forward_def MultiheadAttention_forward_def Let_def)

section \<open>Where dropout is applied (C5)\<close>

lemma map_state_count:
  assumes "\<And>a s. snd (f a s) = s + c a"
  shows "snd (map_state f xs s) = (s :: nat) + sum_list (map c xs)"
  by (induction xs arbitrary: s) (simp_all add: assms split_beta)

lemma Dropout_forward_draws:
  assumes "drop_training d" "0 < drop_p d" "drop_p d < 1"
  shows "snd (Dropout_forward d g x n) = n + numel3 x"
proof -
  have 1: "snd (map_state (bernoulli_mul g p0) v s) = s + length v" for p0 v s
    by (simp add: map_state_count[where c = "\<lambda>_. 1"] bernoulli_mul_def sum_list_triv)
  have 2: "snd (map_state (map_state (bernoulli_mul g p0)) m s) = s + length (concat m)"
    for p0 m s
    by (simp add: map_state_count[where c = length] 1 length_concat)
  have 3: "snd (map_state (map_state (map_state (bernoulli_mul g p0))) y s) = s + numel3 y"
    for p0 y s
  proof -
    have "sum_list (map (\<lambda>m. length (concat m)) y) = numel3 y"
      by (induction y) (simp_all add: numel3_def)
    then show ?thesis
      by (simp add: map_state_count[where c = "\<lambda>m. length (concat m)"] 2)
  qed
  show ?thesis using assms by (simp add: Dropout_forward_def 3)
qed

lemma FeedForWard_forward_draws:
  "snd (FeedForWard_forward m g x n) =
   snd (Dropout_forward (ff_dropout m) g (Linear_forward (ff_linear1 m) x) n)"
  by (simp add: FeedForWard_forward_def Let_def split_beta)

lemma MultiheadAttention_forward_dropout:
  "MultiheadAttention_forward (a\<lparr>mha_dropout := q\<rparr>) query key val msk =
   MultiheadAttention_forward a query key val msk"
  by (simp add: MultiheadAttention_forward_def)

lemma TransformerEncoderLayer_forward_draws:
  assumes "drop_training (ff_dropout (enc_feedforward l))"
    "0 < drop_p (ff_dropout (enc_feedforward l))" "drop_p (ff_dropout (enc_feedforward l)) < 1"
  shows "snd (TransformerEncoderLayer_forward l g x msk n) =
         n + numel3 (Linear_forward (ff_linear1 (enc_feedforward l))
                       (MultiheadAttention_forward (self_attn l) x x x msk))"
  by (simp add: TransformerEncoderLayer_forward_def FeedForWard_forward_draws
      Dropout_forward_draws[OF assms])

lemma enc_layer_half_init:
  "TransformerEncoderLayer_init 1 1 (1 / 2) 1 (unit_mha_weights, unit_ff_weights) = Inr enc_layer_half"
  by (simp add: TransformerEncoderLayer_init_def MultiheadAttention_init_def FeedForWard_init_def
      Dropout_init_def unit_mha_weights_def unit_ff_weights_def enc_layer_half_def)

lemma enc_layer_half_hidden:
  "numel3 (Linear_forward (ff_linear1 (enc_feedforward enc_layer_half))
     (MultiheadAttention_forward (self_attn enc_layer_half) [[[1], [2]]] [[[1], [2]]] [[[1], [2]]]
        [[[False, False], [False, False]]])) = 2"
  by (simp add: enc_layer_half_def numel3_def MultiheadAttention_forward_def Linear_forward_def
      linear_vec_def dot_def view4_def chunk_def transpose12_def transpose2_def repeat_heads_def
      ScaleDotProductAttention_forward_def ScaleDotProductAttention_attn_def matmul_def
      matmul2_def transpose_last_def div_scalar_def masked_fill_def softmax_def softmax_vec_def
      reshape3_def tadd3_def LayerNorm_def upt_0_2)

text \<open>
  Claim C5. Dropout is to be applied inside the attention computation as well. The
  constructor of the encoder layer hands the configured probability to its attention,
  which stores it, and \<^verbatim>\<open>MultiheadAttention.forward\<close> never reads it. The encoder layer
  built for the probability 1/2 is in training mode and its attention stores 1/2, yet the
  attention returns what it returns for the probability 0, and a forward pass of the
  layer over two positions draws two samples from the generator: those of the dropout of
  the feed-forward block, whose hidden tensor has two elements.
\<close>

theorem encoder_attention_ignores_dropout:
  "TransformerEncoderLayer_init 1 1 (1 / 2) 1 (unit_mha_weights, unit_ff_weights) =
     Inr enc_layer_half \<and>
   mha_dropout (self_attn enc_layer_half) = 1 / 2 \<and>
   drop_p (ff_dropout (enc_feedforward enc_layer_half)) = 1 / 2 \<and>
   drop_training (ff_dropout (enc_feedforward enc_layer_half)) \<and>
   MultiheadAttention_forward (self_attn enc_layer_half) [[[1], [2]]] [[[1], [2]]] [[[1], [2]]]
       [[[False, False], [False, False]]] =
     MultiheadAttention_forward ((self_attn enc_layer_half)\<lparr>mha_dropout := 0\<rparr>)
       [[[1], [2]]] [[[1], [2]]] [[[1], [2]]] [[[False, False], [False, False]]] \<and>
   numel3 (Linear_forward (ff_linear1 (enc_feedforward enc_layer_half))
     (MultiheadAttention_forward (self_attn enc_layer_half) [[[1], [2]]] [[[1], [2]]] [[[1], [2]]]
        [[[False, False], [False, False]]])) = 2 \<and>
   snd (TransformerEncoderLayer_forward enc_layer_half (\<lambda>k. False) [[[1], [2]]]
          [[[False, False], [False, False]]] 0) = 2"
proof -
  have d: "drop_training (ff_dropout (enc_feedforward enc_layer_half))"
    "0 < drop_p (ff_dropout (enc_feedforward enc_layer_half))"
    "drop_p (ff_dropout (enc_feedforward enc_layer_half)) < 1"
    "mha_dropout (self_attn enc_layer_half) = 1 / 2"
    "drop_p (ff_dropout (enc_feedforward enc_layer_half)) = 1 / 2"
    by (simp_all add: enc_layer_half_def)
  have "snd (TransformerEncoderLayer_forward enc_layer_half (\<lambda>k. False) [[[1], [2]]]
          [[[False, False], [False, False]]] 0) = 2"
    by (simp only: TransformerEncoderLayer_forward_draws[OF d(1-3)] enc_layer_half_hidden)
  with d(1,4,5) enc_layer_half_init enc_layer_half_hidden
    MultiheadAttention_forward_dropout[where a = "self_attn enc_layer_half" and q = 0]
  show ?thesis by simp
qed

text \<open>The decoder layer sets the stored probability of both of its attentions to 0.\<close>

lemma TransformerDecoderLayer_init_attn_dropout:
  assumes "TransformerDecoderLayer_init d_model num_heads feedforward_dim dropout ws = Inr dl"
  shows "mha_dropout (dec_self_attn dl) = 0 \<and> mha_dropout (dec_enc_attn dl) = 0"
proof -
  obtain ws1 ws2 ws3 where ws: "ws = (ws1, ws2, ws3)" by (cases ws) auto
  obtain a1 a2 where a: "MultiheadAttention_init d_model num_heads 0 ws1 = Inr a1"
    "MultiheadAttention_init d_model num_heads 0 ws2 = Inr a2"
    "dec_self_attn dl = a1" "dec_enc_attn dl = a2"
    using assms by (auto simp: TransformerDecoderLayer_init_def ws split: sum.splits)
  have "mha_dropout m = q" if "MultiheadAttention_init e h q w = Inr m" for e h q w m
    using that by (auto simp: MultiheadAttention_init_def split: prod.splits if_splits)
  then show ?thesis using a by auto
qed

section \<open>The positional encoding (C1, C3)\<close>

text \<open>
  What \<^verbatim>\<open>PositionalEncoding.forward\<close> computes on an input of shape [batch, seq_len, d_model]
  whose batch size is at most the length of the table: batch element \<open>b\<close> gets entry \<open>b\<close> of
  the table added at every one of its positions, since the slice is taken with
  \<^verbatim>\<open>x.size(0)\<close>, the batch size.
\<close>

lemma pos_enc_2_init: "PositionalEncoding_init 2 0 2 = Inr pos_enc_2"
proof -
  have a: "arange2 2 = [0]" by code_simp
  have u: "[0..<2] = [0, Suc 0]" by code_simp
  have d: "div_term 2 = [1]" by (simp add: div_term_def a)
  show ?thesis
    by (simp add: PositionalEncoding_init_def Dropout_init_def d pe_row_def u pos_enc_2_def)
qed

lemma sin_1_pos: "0 < sin (1 :: real)"
  by (rule sin_gt_zero) (use pi_ge_two in simp_all)

lemma map_err_Inr:
  assumes "\<And>x. x \<in> set xs \<Longrightarrow> f x = Inr (h x)"
  shows "map_err f xs = Inr (map h xs)"
  using assms by (induction xs) simp_all

lemma iadd1_same: "length y = length x \<Longrightarrow> iadd1 x y = Inr (map2 (+) x y)"
  by (simp add: iadd1_def expand_def)

lemma iadd2_row:
  assumes "list_all (\<lambda>r. length r = length row) xb"
  shows "iadd2 xb [row] = Inr (map (\<lambda>xr. map2 (+) xr row) xb)"
proof -
  have e: "expand (length xb) [row] = Inr (replicate (length xb) row)"
    by (cases "length xb = 1") (simp_all add: expand_def)
  have "map_err (\<lambda>(a, b). iadd1 a b) (zip xb (replicate (length xb) row)) =
        Inr (map (\<lambda>(a, b). map2 (+) a b) (zip xb (replicate (length xb) row)))"
  proof (rule map_err_Inr)
    fix p assume "p \<in> set (zip xb (replicate (length xb) row))"
    then have "fst p \<in> set xb" "snd p = row"
      by (metis prod.collapse set_zip_leftD, metis prod.collapse set_zip_rightD in_set_replicate)
    then show "(case p of (a, b) \<Rightarrow> iadd1 a b) = Inr (case p of (a, b) \<Rightarrow> map2 (+) a b)"
      using assms by (cases p) (simp add: iadd1_same list_all_iff)
  qed
  moreover have "map (\<lambda>(a, b). map2 (+) a b) (zip xb (replicate (length xb) row)) =
                 map (\<lambda>xr. map2 (+) xr row) xb"
    by (rule nth_equalityI) simp_all
  ultimately show ?thesis by (simp add: iadd2_def e)
qed

lemma PositionalEncoding_forward_rows:
  assumes x: "shape3 B S D x" and B: "B \<le> length (pe m)"
    and rows: "\<And>b. b < B \<Longrightarrow> \<exists>row. pe m ! b = [row] \<and> length row = D"
  shows "PositionalEncoding_forward m g x n =
         Inr (Dropout_forward (pos_dropout m) g
                (map2 (\<lambda>xb t. map (\<lambda>xr. map2 (+) xr (hd t)) xb) x (pe m)) n)"
proof -
  have lx: "length x = B" using x by (simp add: shape3_length)
  have e: "expand (length x) (take (length x) (pe m)) = Inr (take (length x) (pe m))"
    using B lx by (simp add: expand_def)
  have "map_err (\<lambda>(a, b). iadd2 a b) (zip x (take (length x) (pe m))) =
        Inr (map (\<lambda>(xb, t). map (\<lambda>xr. map2 (+) xr (hd t)) xb) (zip x (take (length x) (pe m))))"
  proof (rule map_err_Inr)
    fix p assume "p \<in> set (zip x (take (length x) (pe m)))"
    then obtain b where b: "b < B" and p: "p = (x ! b, pe m ! b)"
      using lx B by (auto simp: set_zip)
    obtain row where row: "pe m ! b = [row]" "length row = D"
      using rows[OF b] by blast
    have "list_all (\<lambda>r. length r = length row) (x ! b)"
      using shape3_nth[OF x b] row by (simp add: shape2_def)
    then show "(case p of (a, b) \<Rightarrow> iadd2 a b) =
               Inr (case p of (xb, t) \<Rightarrow> map (\<lambda>xr. map2 (+) xr (hd t)) xb)"
      by (simp add: p row iadd2_row)
  qed
  moreover have "zip x (take (length x) (pe m)) = zip x (pe m)"
  proof -
    have "take (length x) (zip x (pe m)) = zip (take (length x) x) (take (length x) (pe m))"
      by (rule take_zip)
    moreover have "take (length x) (zip x (pe m)) = zip x (pe m)"
      by (rule take_all) simp
    ultimately show ?thesis by simp
  qed
  ultimately show ?thesis
    by (simp add: PositionalEncoding_forward_def iadd3_def e)
qed

text \<open>
  Claim C1 says that the forward pass returns \<^verbatim>\<open>x + pe[:seq_len]\<close>, row \<open>s\<close> of the table
  at position \<open>s\<close>. On the zero input of shape [1, 2, 2], with the table of
  \<^verbatim>\<open>PositionalEncoding(2, 0, 2)\<close>, the module adds row 0 of the table at both positions;
  the formula of the specification has row 1, \<open>(sin 1, cos 1)\<close>, at position 1.
\<close>

theorem PositionalEncoding_forward_batch_row:
  "PositionalEncoding_init 2 0 2 = Inr pos_enc_2 \<and>
   PositionalEncoding_forward pos_enc_2 (\<lambda>k. True) [[[0, 0], [0, 0]]] 0 =
     Inr ([[[0, 1], [0, 1]]], 0) \<and>
   PositionalEncoding_forward_spec pos_enc_2 (\<lambda>k. True) [[[0, 0], [0, 0]]] 0 =
     ([[[0, 1], [sin 1, cos 1]]], 0) \<and>
   [[[0, 1], [sin 1, cos 1]]] \<noteq> [[[0, 1], [0, 1 :: real]]]"
proof -
  have "PositionalEncoding_forward pos_enc_2 (\<lambda>k. True) [[[0, 0], [0, 0]]] 0 =
     Inr ([[[0, 1], [0, 1]]], 0)"
    by (simp add: PositionalEncoding_forward_def pos_enc_2_def iadd3_def iadd2_def iadd1_def
        expand_def Dropout_forward_def)
  moreover have "PositionalEncoding_forward_spec pos_enc_2 (\<lambda>k. True) [[[0, 0], [0, 0]]] 0 =
     ([[[0, 1], [sin 1, cos 1]]], 0)"
    by (simp add: PositionalEncoding_forward_spec_def pos_enc_2_def Dropout_forward_def)
  moreover have "[[[0, 1], [sin 1, cos 1]]] \<noteq> [[[0, 1], [0, 1 :: real]]]"
    using sin_1_pos by simp
  ultimately show ?thesis using pos_enc_2_init by blast
qed

text \<open>
  Claim C3 says that a sequence longer than the table raises. With a table of two
  positions the module returns a result for an input of three positions: it adds row 0
  of the table at all three.
\<close>

theorem PositionalEncoding_forward_long_sequence:
  "PositionalEncoding_init 2 0 2 = Inr pos_enc_2 \<and> length (pe pos_enc_2) = 2 \<and>
   PositionalEncoding_forward pos_enc_2 (\<lambda>k. True) [[[0, 0], [0, 0], [0, 0]]] 0 =
     Inr ([[[0, 1], [0, 1], [0, 1]]], 0)"
proof -
  have "PositionalEncoding_forward pos_enc_2 (\<lambda>k. True) [[[0, 0], [0, 0], [0, 0]]] 0 =
     Inr ([[[0, 1], [0, 1], [0, 1]]], 0)"
    by (simp add: PositionalEncoding_forward_def pos_enc_2_def iadd3_def iadd2_def iadd1_def
        expand_def Dropout_forward_def numeral_3_eq_3)
  moreover have "length (pe pos_enc_2) = 2" by (simp add: pos_enc_2_def)
  ultimately show ?thesis using pos_enc_2_init by blast
qed

end
